theory Spec2Isabelle
  imports Complex_Main
begin

section \<open>Logistic regression by gradient descent: the numeric core of image_classification.py\<close>

text \<open>
  The source works on numpy arrays of floating-point numbers. The embedding keeps the
  shapes, the order of evaluation and every place where Python or numpy raises, and reads
  the floating-point numbers as real numbers (exact arithmetic): overflow of \<open>exp\<close>,
  rounding and the infinities that \<open>log\<close> yields at a saturated activation are outside
  the model.
\<close>

subsection \<open>Errors\<close>

text \<open>
  Everything the source can raise on well-typed arguments. numpy and Python report several
  different failures as \<open>ValueError\<close>; the cause is kept apart. \<open>InvalidReference\<close>
  is not an error of Python: it is what the store of arrays (below) answers to a reference
  that no allocation returned, which a Python program cannot hold.
\<close>

datatype value_error_cause =
    NegativeDimensions
  | ShapesNotAligned
  | CannotBroadcast
  | CannotReshape
  | TooManyValuesToUnpack
  | NotEnoughValuesToUnpack

datatype error =
    ValueError value_error_cause
  | ZeroDivisionError
  | AssertionError
  | IndexError
  | KeyError string
  | TypeError
  | UnboundLocalError string
  | NameError string
  | InvalidReference

definition bindE :: "error + 'a \<Rightarrow> ('a \<Rightarrow> error + 'b) \<Rightarrow> error + 'b" where
  "bindE m f = (case m of Inl e \<Rightarrow> Inl e | Inr x \<Rightarrow> f x)"

subsection \<open>Two-dimensional numpy arrays\<close>

text \<open>
  An array carries its shape and its rows. The shape is stored and not read off the rows,
  since numpy has arrays of shape \<open>(0, n)\<close> and \<open>(n, 0)\<close>.
\<close>

datatype ndarray = NDArray (nrows: nat) (ncols: nat) (elems: "real list list")

definition wf_array :: "ndarray \<Rightarrow> bool" where
  "wf_array A \<longleftrightarrow>
     length (elems A) = nrows A \<and> list_all (\<lambda>r. length r = ncols A) (elems A)"

definition shape :: "ndarray \<Rightarrow> nat \<times> nat" where
  "shape A = (nrows A, ncols A)"

definition item :: "ndarray \<Rightarrow> nat \<Rightarrow> nat \<Rightarrow> real" where
  "item A i j = elems A ! i ! j"

definition mk :: "nat \<Rightarrow> nat \<Rightarrow> (nat \<Rightarrow> nat \<Rightarrow> real) \<Rightarrow> ndarray" where
  "mk r c f = NDArray r c (map (\<lambda>i. map (\<lambda>j. f i j) [0..<c]) [0..<r])"

text \<open>\<open>np.zeros((r, c))\<close>: numpy refuses a negative dimension.\<close>

definition np_zeros :: "int \<Rightarrow> int \<Rightarrow> error + ndarray" where
  "np_zeros r c =
     (if r < 0 \<or> c < 0 then Inl (ValueError NegativeDimensions)
      else Inr (mk (nat r) (nat c) (\<lambda>i j. 0)))"

text \<open>\<open>A.T\<close>\<close>

definition np_T :: "ndarray \<Rightarrow> ndarray" where
  "np_T A = mk (ncols A) (nrows A) (\<lambda>i j. item A j i)"

text \<open>\<open>np.dot(A, B)\<close> on two-dimensional arrays: the inner dimensions must agree.\<close>

definition np_dot :: "ndarray \<Rightarrow> ndarray \<Rightarrow> error + ndarray" where
  "np_dot A B =
     (if ncols A \<noteq> nrows B then Inl (ValueError ShapesNotAligned)
      else Inr (mk (nrows A) (ncols B)
                  (\<lambda>i j. \<Sum>k\<leftarrow>[0..<ncols A]. item A i k * item B k j)))"

text \<open>
  Elementwise operations with a scalar (\<open>-z\<close>, \<open>np.exp(z)\<close>, \<open>1 + z\<close>, \<open>1 / z\<close>,
  \<open>np.log(z)\<close>, \<open>z + b\<close>, \<open>c * z\<close>): the shape is kept.
\<close>

definition amap :: "(real \<Rightarrow> real) \<Rightarrow> ndarray \<Rightarrow> ndarray" where
  "amap f A = mk (nrows A) (ncols A) (\<lambda>i j. f (item A i j))"

text \<open>
  Elementwise operations on two arrays follow numpy's broadcasting: along each axis the
  two lengths are equal, or one of them is 1 and that operand is repeated.
\<close>

definition bdim :: "nat \<Rightarrow> nat \<Rightarrow> nat option" where
  "bdim m n = (if m = n then Some m else if m = 1 then Some n else if n = 1 then Some m else None)"

definition bitem :: "ndarray \<Rightarrow> nat \<Rightarrow> nat \<Rightarrow> real" where
  "bitem A i j = item A (if nrows A = 1 then 0 else i) (if ncols A = 1 then 0 else j)"

definition broadcast2 :: "(real \<Rightarrow> real \<Rightarrow> real) \<Rightarrow> ndarray \<Rightarrow> ndarray \<Rightarrow> error + ndarray" where
  "broadcast2 f A B =
     (case bdim (nrows A) (nrows B) of
        None \<Rightarrow> Inl (ValueError CannotBroadcast)
      | Some r \<Rightarrow>
          (case bdim (ncols A) (ncols B) of
             None \<Rightarrow> Inl (ValueError CannotBroadcast)
           | Some c \<Rightarrow> Inr (mk r c (\<lambda>i j. f (bitem A i j) (bitem B i j)))))"

definition np_multiply :: "ndarray \<Rightarrow> ndarray \<Rightarrow> error + ndarray" where
  "np_multiply = broadcast2 (\<lambda>x y. x * y)"

definition np_add :: "ndarray \<Rightarrow> ndarray \<Rightarrow> error + ndarray" where
  "np_add = broadcast2 (\<lambda>x y. x + y)"

definition np_subtract :: "ndarray \<Rightarrow> ndarray \<Rightarrow> error + ndarray" where
  "np_subtract = broadcast2 (\<lambda>x y. x - y)"

text \<open>\<open>np.sum(A)\<close>: the sum of all entries.\<close>

definition np_sum :: "ndarray \<Rightarrow> real" where
  "np_sum A = sum_list (map sum_list (elems A))"

subsection \<open>initialize_with_zeros\<close>

text \<open>
  \<^verbatim>\<open>w = np.zeros((dim, 1)); b = 0\<close>, then the two assertions. The second one
  (\<open>b\<close> is a float or an int) holds of the literal \<open>0\<close>. The argument \<open>dim\<close> of the
  source is written \<open>d\<close>.
\<close>

definition initialize_with_zeros :: "int \<Rightarrow> error + (ndarray \<times> real)" where
  "initialize_with_zeros d =
     bindE (np_zeros d 1) (\<lambda>w.
       let b = 0 in
       if shape w \<noteq> (nat d, 1) then Inl AssertionError
       else Inr (w, b))"

subsection \<open>sigmoid\<close>

text \<open>
  \<^verbatim>\<open>s = 1 / (1 + np.exp(-z))\<close>. The source applies it to a scalar or to an array;
  on an array every operation is elementwise.
\<close>

definition sigmoid :: "real \<Rightarrow> real" where
  "sigmoid z = 1 / (1 + exp (- z))"

definition sigmoid_array :: "ndarray \<Rightarrow> ndarray" where
  "sigmoid_array z = amap (\<lambda>x. 1 / x) (amap (\<lambda>x. 1 + x) (amap exp (amap uminus z)))"

subsection \<open>propagate\<close>

text \<open>
  The dictionary \<^verbatim>\<open>{"dw": dw, "db": db}\<close> has two fixed keys; it is a pair with named
  fields. \<open>1 / m\<close> and \<open>-1 / m\<close> divide by the Python integer \<open>X.shape[1]\<close>, which
  raises when it is zero.
\<close>

datatype grads = Grads (grads_dw: ndarray) (grads_db: real)

definition py_div :: "real \<Rightarrow> nat \<Rightarrow> error + real" where
  "py_div x m = (if m = 0 then Inl ZeroDivisionError else Inr (x / real m))"

text \<open>
  Line by line as in the source: the activation, the cost (\<open>-1 / m\<close> is evaluated before
  the sum it multiplies), \<open>dw\<close>, \<open>db\<close>, and the assertion on the shape of \<open>dw\<close>. The
  assertions on \<open>db.dtype\<close> and on the shape of the squeezed cost hold of every float
  scalar.
\<close>

definition propagate :: "ndarray \<Rightarrow> real \<Rightarrow> ndarray \<Rightarrow> ndarray \<Rightarrow> error + (grads \<times> real)" where
  "propagate w b X Y =
     (let m = ncols X in
      bindE (np_dot (np_T w) X) (\<lambda>Z.
      let A = sigmoid_array (amap (\<lambda>z. z + b) Z) in
      bindE (py_div (- 1) m) (\<lambda>c.
      bindE (np_multiply Y (amap ln A)) (\<lambda>t1.
      bindE (np_multiply (amap (\<lambda>y. 1 - y) Y) (amap ln (amap (\<lambda>a. 1 - a) A))) (\<lambda>t2.
      bindE (np_add t1 t2) (\<lambda>t.
      let cost = c * np_sum t in
      bindE (py_div 1 m) (\<lambda>c1.
      bindE (np_subtract A Y) (\<lambda>AY.
      bindE (np_dot X (np_T AY)) (\<lambda>D.
      let dw = amap (\<lambda>x. c1 * x) D in
      bindE (py_div 1 m) (\<lambda>c2.
      bindE (np_subtract A Y) (\<lambda>AY'.
      let db = c2 * np_sum AY' in
      if shape dw \<noteq> shape w then Inl AssertionError
      else Inr (Grads dw db, cost))))))))))))"

subsection \<open>optimize\<close>

text \<open>
  The local variables of the loop. \<open>dw\<close> and \<open>db\<close> are unbound until the first
  iteration assigns them. The lines that \<open>print_cost\<close> sends to the console are kept as
  pairs of the iteration and its cost.
\<close>

datatype params = Params (params_w: ndarray) (params_b: real)

datatype loop_state = LoopState
  (ls_w: ndarray) (ls_b: real)
  (ls_dw: "ndarray option") (ls_db: "real option")
  (ls_costs: "real list") (ls_iterations: "nat list")
  (ls_printed: "(nat \<times> real) list")

definition optimize_body ::
  "ndarray \<Rightarrow> ndarray \<Rightarrow> real \<Rightarrow> bool \<Rightarrow> nat \<Rightarrow> loop_state \<Rightarrow> error + loop_state" where
  "optimize_body X Y learning_rate print_cost i s =
     bindE (propagate (ls_w s) (ls_b s) X Y) (\<lambda>(grads, cost).
     let dw = grads_dw grads;
         db = grads_db grads in
     bindE (np_subtract (ls_w s) (amap (\<lambda>x. learning_rate * x) dw)) (\<lambda>w'.
     let b' = ls_b s - learning_rate * db in
     Inr (LoopState w' b' (Some dw) (Some db)
            (if i mod 100 = 0 then ls_costs s @ [cost] else ls_costs s)
            (if i mod 100 = 0 then ls_iterations s @ [i] else ls_iterations s)
            (if print_cost \<and> i mod 100 = 0 then ls_printed s @ [(i, cost)] else ls_printed s))))"

fun optimize_loop ::
  "ndarray \<Rightarrow> ndarray \<Rightarrow> real \<Rightarrow> bool \<Rightarrow> nat list \<Rightarrow> loop_state \<Rightarrow> error + loop_state" where
  "optimize_loop X Y learning_rate print_cost [] s = Inr s"
| "optimize_loop X Y learning_rate print_cost (i # rest) s =
     bindE (optimize_body X Y learning_rate print_cost i s)
       (optimize_loop X Y learning_rate print_cost rest)"

text \<open>\<open>range(n)\<close> is empty for \<open>n \<le> 0\<close>.\<close>

definition py_range :: "int \<Rightarrow> nat list" where
  "py_range n = [0..<nat n]"

text \<open>
  After the loop the source builds \<^verbatim>\<open>{"dw": dw, "db": db}\<close> from the loop's local
  variables; reading a local that no iteration assigned raises \<open>UnboundLocalError\<close>.
\<close>

definition optimize ::
  "ndarray \<Rightarrow> real \<Rightarrow> ndarray \<Rightarrow> ndarray \<Rightarrow> int \<Rightarrow> real \<Rightarrow> bool
     \<Rightarrow> error + (params \<times> grads \<times> real list \<times> nat list)" where
  "optimize w b X Y num_iterations learning_rate print_cost =
     bindE (optimize_loop X Y learning_rate print_cost (py_range num_iterations)
              (LoopState w b None None [] [] [])) (\<lambda>s.
     let params = Params (ls_w s) (ls_b s) in
     case ls_dw s of
       None \<Rightarrow> Inl (UnboundLocalError ''dw'')
     | Some dw \<Rightarrow>
         (case ls_db s of
            None \<Rightarrow> Inl (UnboundLocalError ''db'')
          | Some db \<Rightarrow> Inr (params, Grads dw db, ls_costs s, ls_iterations s)))"

subsection \<open>predict\<close>

text \<open>
  \<open>w.reshape(r, c)\<close> keeps the entries in row-major order and needs as many entries as
  the new shape holds. \<open>A[i, j]\<close> reads and \<open>A[i, j] = v\<close> writes one entry.
\<close>

definition np_reshape :: "ndarray \<Rightarrow> nat \<Rightarrow> nat \<Rightarrow> error + ndarray" where
  "np_reshape A r c =
     (if nrows A * ncols A \<noteq> r * c then Inl (ValueError CannotReshape)
      else Inr (mk r c (\<lambda>i j. concat (elems A) ! (i * c + j))))"

definition getitem :: "ndarray \<Rightarrow> nat \<Rightarrow> nat \<Rightarrow> error + real" where
  "getitem A i j = (if i < nrows A \<and> j < ncols A then Inr (item A i j) else Inl IndexError)"

definition setitem :: "ndarray \<Rightarrow> nat \<Rightarrow> nat \<Rightarrow> real \<Rightarrow> error + ndarray" where
  "setitem A i j v =
     (if i < nrows A \<and> j < ncols A
      then Inr (NDArray (nrows A) (ncols A) ((elems A)[i := (elems A ! i)[j := v]]))
      else Inl IndexError)"

definition predict_body :: "ndarray \<Rightarrow> nat \<Rightarrow> ndarray \<Rightarrow> error + ndarray" where
  "predict_body A i Y_prediction =
     bindE (getitem A 0 i) (\<lambda>a.
       if a > 0.5 then setitem Y_prediction 0 i 1
       else setitem Y_prediction 0 i 0)"

fun predict_loop :: "ndarray \<Rightarrow> nat list \<Rightarrow> ndarray \<Rightarrow> error + ndarray" where
  "predict_loop A [] Y_prediction = Inr Y_prediction"
| "predict_loop A (i # rest) Y_prediction =
     bindE (predict_body A i Y_prediction) (predict_loop A rest)"

definition predict :: "ndarray \<Rightarrow> real \<Rightarrow> ndarray \<Rightarrow> error + ndarray" where
  "predict w b X =
     (let m = ncols X in
      bindE (np_zeros 1 (int m)) (\<lambda>Y_prediction.
      bindE (np_reshape w (nrows X) 1) (\<lambda>w.
      bindE (np_dot (np_T w) X) (\<lambda>Z.
      let A = sigmoid_array (amap (\<lambda>z. z + b) Z) in
      bindE (predict_loop A [0..<ncols A] Y_prediction) (\<lambda>Y_prediction.
      if shape Y_prediction \<noteq> (1, m) then Inl AssertionError
      else Inr Y_prediction)))))"

subsection \<open>model\<close>

text \<open>
  \<open>optimize\<close> returns a Python tuple of four objects, and \<open>model\<close> unpacks it into
  three names. Python checks the length of the tuple at the assignment, so the tuple is
  modelled as a list of dynamically typed objects.
\<close>

datatype pyobject =
    PyParams params
  | PyGrads grads
  | PyCosts "real list"
  | PyIterations "nat list"

definition tuple_of_result :: "params \<times> grads \<times> real list \<times> nat list \<Rightarrow> pyobject list" where
  "tuple_of_result r =
     (case r of (params, grads, costs, iterations) \<Rightarrow>
        [PyParams params, PyGrads grads, PyCosts costs, PyIterations iterations])"

definition unpack3 :: "pyobject list \<Rightarrow> error + (pyobject \<times> pyobject \<times> pyobject)" where
  "unpack3 t =
     (if length t > 3 then Inl (ValueError TooManyValuesToUnpack)
      else if length t < 3 then Inl (ValueError NotEnoughValuesToUnpack)
      else Inr (t ! 0, t ! 1, t ! 2))"

text \<open>
  \<^verbatim>\<open>parameters["w"]\<close> and \<^verbatim>\<open>parameters["b"]\<close>: a dictionary without the key raises
  \<open>KeyError\<close>, a list indexed by a string raises \<open>TypeError\<close>.
\<close>

definition subscript_w :: "pyobject \<Rightarrow> error + ndarray" where
  "subscript_w v =
     (case v of
        PyParams p \<Rightarrow> Inr (params_w p)
      | PyGrads g \<Rightarrow> Inl (KeyError ''w'')
      | _ \<Rightarrow> Inl TypeError)"

definition subscript_b :: "pyobject \<Rightarrow> error + real" where
  "subscript_b v =
     (case v of
        PyParams p \<Rightarrow> Inr (params_b p)
      | PyGrads g \<Rightarrow> Inl (KeyError ''b'')
      | _ \<Rightarrow> Inl TypeError)"

text \<open>
  The accuracy printed for a split:
  \<^verbatim>\<open>100 - np.mean(np.abs(Y_prediction - Y)) * 100\<close>. (The mean of an empty array is
  \<open>nan\<close> in numpy and 0 here; no theorem below depends on it.)
\<close>

definition np_mean :: "ndarray \<Rightarrow> real" where
  "np_mean A = np_sum A / real (nrows A * ncols A)"

definition accuracy :: "ndarray \<Rightarrow> ndarray \<Rightarrow> error + real" where
  "accuracy Y_prediction Y =
     bindE (np_subtract Y_prediction Y) (\<lambda>D. Inr (100 - np_mean (amap abs D) * 100))"

text \<open>
  The dictionary \<open>d\<close> that \<open>model\<close> assembles, with the two accuracies it prints.
\<close>

datatype trained_model = TrainedModel
  (tm_costs: pyobject)
  (tm_Y_prediction_test: ndarray)
  (tm_Y_prediction_train: ndarray)
  (tm_w: ndarray)
  (tm_b: real)
  (tm_learning_rate: real)
  (tm_num_iterations: int)

text \<open>
  \<^verbatim>\<open>plt.plot(iterations, costs)\<close> reads the name \<open>iterations\<close>. \<open>model\<close> never
  assigns it and the module defines no global of that name (its globals are the imports,
  the functions, \<open>train_set_x\<close>, \<open>train_set_y\<close>, \<open>test_set_x\<close>, \<open>test_set_y\<close> and
  \<open>d\<close>), so the lookup raises \<open>NameError\<close>.
\<close>

definition lookup_iterations :: "error + nat list" where
  "lookup_iterations = Inl (NameError ''iterations'')"

text \<open>
  \<open>model\<close>, up to the plot. What follows the plot in the source (decoding an image file
  and printing the prediction for it) is outside the numeric core.
\<close>

definition model ::
  "ndarray \<Rightarrow> ndarray \<Rightarrow> ndarray \<Rightarrow> ndarray \<Rightarrow> int \<Rightarrow> real \<Rightarrow> bool
     \<Rightarrow> error + (trained_model \<times> real \<times> real)" where
  "model X_train Y_train X_test Y_test num_iterations learning_rate print_cost =
     bindE (initialize_with_zeros (int (nrows X_train))) (\<lambda>(w, b).
     bindE (optimize w b X_train Y_train num_iterations learning_rate print_cost) (\<lambda>r.
     bindE (unpack3 (tuple_of_result r)) (\<lambda>(parameters, grads, costs).
     bindE (subscript_w parameters) (\<lambda>w.
     bindE (subscript_b parameters) (\<lambda>b.
     bindE (predict w b X_test) (\<lambda>Y_prediction_test.
     bindE (predict w b X_train) (\<lambda>Y_prediction_train.
     bindE (accuracy Y_prediction_train Y_train) (\<lambda>train_accuracy.
     bindE (accuracy Y_prediction_test Y_test) (\<lambda>test_accuracy.
     let d = TrainedModel costs Y_prediction_test Y_prediction_train w b
               learning_rate num_iterations in
     bindE lookup_iterations (\<lambda>iterations.
     Inr (d, train_accuracy, test_accuracy)))))))))))"


subsection \<open>The formulas of the specification\<close>

text \<open>
  These definitions follow the words of the specification, not the code; the theorems
  below compare the code with them. The activation of column \<open>j\<close> is
  \<open>sigmoid(w\<^sup>T X + b)\<close> at \<open>j\<close>; \<open>dw = (1/N) X (A - Y)\<^sup>T\<close>, row \<open>i\<close>;
  \<open>db = (1/N) \<Sum>(A - Y)\<close>; \<open>cost = -(1/N) \<Sum>[Y log A + (1 - Y) log(1 - A)]\<close>.
\<close>

definition spec_activation :: "ndarray \<Rightarrow> real \<Rightarrow> ndarray \<Rightarrow> nat \<Rightarrow> real" where
  "spec_activation w b X j = sigmoid ((\<Sum>k\<leftarrow>[0..<nrows X]. item w k 0 * item X k j) + b)"

definition spec_dw :: "ndarray \<Rightarrow> real \<Rightarrow> ndarray \<Rightarrow> ndarray \<Rightarrow> nat \<Rightarrow> real" where
  "spec_dw w b X Y i =
     (1 / real (ncols X)) *
       (\<Sum>j\<leftarrow>[0..<ncols X]. item X i j * (spec_activation w b X j - item Y 0 j))"

definition spec_db :: "ndarray \<Rightarrow> real \<Rightarrow> ndarray \<Rightarrow> ndarray \<Rightarrow> real" where
  "spec_db w b X Y =
     (1 / real (ncols X)) * (\<Sum>j\<leftarrow>[0..<ncols X]. spec_activation w b X j - item Y 0 j)"

definition spec_cost :: "ndarray \<Rightarrow> real \<Rightarrow> ndarray \<Rightarrow> ndarray \<Rightarrow> real" where
  "spec_cost w b X Y =
     - (1 / real (ncols X)) *
       (\<Sum>j\<leftarrow>[0..<ncols X].
          item Y 0 j * ln (spec_activation w b X j)
          + (1 - item Y 0 j) * ln (1 - spec_activation w b X j))"

text \<open>
  The shapes of the data model: \<open>w\<close> is \<open>(F, 1)\<close>, \<open>X\<close> is \<open>(F, N)\<close> with
  \<open>N \<ge> 1\<close>, \<open>Y\<close> is \<open>(1, N)\<close>.
\<close>

definition well_shaped :: "ndarray \<Rightarrow> ndarray \<Rightarrow> ndarray \<Rightarrow> bool" where
  "well_shaped w X Y \<longleftrightarrow>
     wf_array w \<and> wf_array X \<and> wf_array Y \<and>
     shape w = (nrows X, 1) \<and> shape Y = (1, ncols X) \<and> 1 \<le> ncols X"

subsection \<open>The recorded iterations\<close>

text \<open>The iterations below \<open>n\<close> whose cost the loop records: every hundredth, from 0.\<close>

definition recorded :: "nat \<Rightarrow> nat list" where
  "recorded n = filter (\<lambda>i. i mod 100 = 0) [0..<n]"

subsection \<open>The activation the predictor thresholds\<close>

text \<open>
  Following the specification: \<open>A = sigmoid(w\<^sup>T X + b)\<close> at column \<open>j\<close>, where \<open>w\<close> is
  first reshaped to \<open>(F, 1)\<close>, so that its \<open>k\<close>-th entry in row-major order multiplies
  row \<open>k\<close> of \<open>X\<close>.
\<close>

definition spec_predict_activation :: "ndarray \<Rightarrow> real \<Rightarrow> ndarray \<Rightarrow> nat \<Rightarrow> real" where
  "spec_predict_activation w b X j =
     sigmoid ((\<Sum>k\<leftarrow>[0..<nrows X]. concat (elems w) ! k * item X k j) + b)"

section \<open>Arrays as objects: the store\<close>

text \<open>
  The definitions above compute with the values of arrays. They cannot say whether a
  function changes an array of its caller, since a Python name holds a reference to an
  array object and two names may hold the same reference. This section models the same
  functions on a store: the list of the array objects allocated so far, a reference being
  an index into it. An array expression allocates a new object for its result;
  \<^verbatim>\<open>A[i, j] = v\<close> overwrites the object that \<open>A\<close> refers to; an assignment to a name
  only changes the reference the name holds. In numpy \<open>A.T\<close> and \<open>A.reshape(\<dots>)\<close> are
  views on the buffer of \<open>A\<close>; the source never writes through one, and the model gives a
  view an object of its own.
\<close>

type_synonym ref = nat
type_synonym heap = "ndarray list"
type_synonym 'a heap_comp = "heap \<Rightarrow> error + ('a \<times> heap)"

text \<open>A computation on the store returns a result and the new store, or raises.\<close>

definition returnH :: "'a \<Rightarrow> 'a heap_comp" where
  "returnH x h = Inr (x, h)"

definition raiseH :: "error \<Rightarrow> 'a heap_comp" where
  "raiseH e h = Inl e"

definition bindH :: "'a heap_comp \<Rightarrow> ('a \<Rightarrow> 'b heap_comp) \<Rightarrow> 'b heap_comp" where
  "bindH m f h = (case m h of Inl e \<Rightarrow> Inl e | Inr (x, h') \<Rightarrow> f x h')"

definition liftE :: "error + 'a \<Rightarrow> 'a heap_comp" where
  "liftE r = (case r of Inl e \<Rightarrow> raiseH e | Inr x \<Rightarrow> returnH x)"

text \<open>Allocation, reading and overwriting of an object.\<close>

definition new_array :: "ndarray \<Rightarrow> ref heap_comp" where
  "new_array A h = Inr (length h, h @ [A])"

definition read_array :: "ref \<Rightarrow> ndarray heap_comp" where
  "read_array r h = (if r < length h then Inr (h ! r, h) else Inl InvalidReference)"

definition write_array :: "ref \<Rightarrow> ndarray \<Rightarrow> unit heap_comp" where
  "write_array r A h = (if r < length h then Inr ((), h[r := A]) else Inl InvalidReference)"

text \<open>
  The numpy operations on references: a unary elementwise operation or a transposition,
  a binary operation that may raise, \<open>np.sum\<close> and \<open>.shape\<close>.
\<close>

definition h_map :: "(ndarray \<Rightarrow> ndarray) \<Rightarrow> ref \<Rightarrow> ref heap_comp" where
  "h_map f r = bindH (read_array r) (\<lambda>A. new_array (f A))"

definition h_op2 :: "(ndarray \<Rightarrow> ndarray \<Rightarrow> error + ndarray) \<Rightarrow> ref \<Rightarrow> ref \<Rightarrow> ref heap_comp" where
  "h_op2 f r1 r2 =
     bindH (read_array r1) (\<lambda>A.
     bindH (read_array r2) (\<lambda>B.
     bindH (liftE (f A B)) new_array))"

definition h_sum :: "ref \<Rightarrow> real heap_comp" where
  "h_sum r = bindH (read_array r) (\<lambda>A. returnH (np_sum A))"

definition h_shape :: "ref \<Rightarrow> (nat \<times> nat) heap_comp" where
  "h_shape r = bindH (read_array r) (\<lambda>A. returnH (shape A))"

text \<open>\<^verbatim>\<open>s = 1 / (1 + np.exp(-z))\<close>: four array expressions, four new objects.\<close>

definition sigmoid_h :: "ref \<Rightarrow> ref heap_comp" where
  "sigmoid_h z =
     bindH (h_map (amap uminus) z) (\<lambda>t1.
     bindH (h_map (amap exp) t1) (\<lambda>t2.
     bindH (h_map (amap (\<lambda>x. 1 + x)) t2) (\<lambda>t3.
     h_map (amap (\<lambda>x. 1 / x)) t3)))"

text \<open>\<open>propagate\<close>, one step for every array expression of the source, in its order.\<close>

definition propagate_h :: "ref \<Rightarrow> real \<Rightarrow> ref \<Rightarrow> ref \<Rightarrow> ((ref \<times> real) \<times> real) heap_comp" where
  "propagate_h w b X Y =
     bindH (h_shape X) (\<lambda>shape_X.
     let m = snd shape_X in
     bindH (h_map np_T w) (\<lambda>wT.
     bindH (h_op2 np_dot wT X) (\<lambda>Z.
     bindH (h_map (amap (\<lambda>z. z + b)) Z) (\<lambda>Zb.
     bindH (sigmoid_h Zb) (\<lambda>A.
     bindH (liftE (py_div (- 1) m)) (\<lambda>c.
     bindH (h_map (amap ln) A) (\<lambda>log_A.
     bindH (h_op2 np_multiply Y log_A) (\<lambda>t1.
     bindH (h_map (amap (\<lambda>y. 1 - y)) Y) (\<lambda>one_minus_Y.
     bindH (h_map (amap (\<lambda>a. 1 - a)) A) (\<lambda>one_minus_A.
     bindH (h_map (amap ln) one_minus_A) (\<lambda>log_one_minus_A.
     bindH (h_op2 np_multiply one_minus_Y log_one_minus_A) (\<lambda>t2.
     bindH (h_op2 np_add t1 t2) (\<lambda>t.
     bindH (h_sum t) (\<lambda>total.
     let cost = c * total in
     bindH (liftE (py_div 1 m)) (\<lambda>c1.
     bindH (h_op2 np_subtract A Y) (\<lambda>AY.
     bindH (h_map np_T AY) (\<lambda>AYT.
     bindH (h_op2 np_dot X AYT) (\<lambda>D.
     bindH (h_map (amap (\<lambda>x. c1 * x)) D) (\<lambda>dw.
     bindH (liftE (py_div 1 m)) (\<lambda>c2.
     bindH (h_op2 np_subtract A Y) (\<lambda>AY'.
     bindH (h_sum AY') (\<lambda>total'.
     let db = c2 * total' in
     bindH (h_shape dw) (\<lambda>shape_dw.
     bindH (h_shape w) (\<lambda>shape_w.
     if shape_dw \<noteq> shape_w then raiseH AssertionError
     else returnH ((dw, db), cost)))))))))))))))))))))))))"

text \<open>
  \<open>optimize\<close>: \<^verbatim>\<open>w = w - learning_rate * dw\<close> allocates the product and the
  difference and binds the local name \<open>w\<close> to the new object.
\<close>

datatype loop_state_h = LoopStateH
  (hs_w: ref) (hs_b: real)
  (hs_dw: "ref option") (hs_db: "real option")
  (hs_costs: "real list") (hs_iterations: "nat list")
  (hs_printed: "(nat \<times> real) list")

definition optimize_body_h ::
  "ref \<Rightarrow> ref \<Rightarrow> real \<Rightarrow> bool \<Rightarrow> nat \<Rightarrow> loop_state_h \<Rightarrow> loop_state_h heap_comp" where
  "optimize_body_h X Y learning_rate print_cost i s =
     bindH (propagate_h (hs_w s) (hs_b s) X Y) (\<lambda>(grads, cost).
     let dw = fst grads;
         db = snd grads in
     bindH (h_map (amap (\<lambda>x. learning_rate * x)) dw) (\<lambda>step.
     bindH (h_op2 np_subtract (hs_w s) step) (\<lambda>w'.
     let b' = hs_b s - learning_rate * db in
     returnH (LoopStateH w' b' (Some dw) (Some db)
            (if i mod 100 = 0 then hs_costs s @ [cost] else hs_costs s)
            (if i mod 100 = 0 then hs_iterations s @ [i] else hs_iterations s)
            (if print_cost \<and> i mod 100 = 0 then hs_printed s @ [(i, cost)] else hs_printed s)))))"

fun optimize_loop_h ::
  "ref \<Rightarrow> ref \<Rightarrow> real \<Rightarrow> bool \<Rightarrow> nat list \<Rightarrow> loop_state_h \<Rightarrow> loop_state_h heap_comp" where
  "optimize_loop_h X Y learning_rate print_cost [] s = returnH s"
| "optimize_loop_h X Y learning_rate print_cost (i # rest) s =
     bindH (optimize_body_h X Y learning_rate print_cost i s)
       (optimize_loop_h X Y learning_rate print_cost rest)"

definition optimize_h ::
  "ref \<Rightarrow> real \<Rightarrow> ref \<Rightarrow> ref \<Rightarrow> int \<Rightarrow> real \<Rightarrow> bool
     \<Rightarrow> ((ref \<times> real) \<times> (ref \<times> real) \<times> real list \<times> nat list) heap_comp" where
  "optimize_h w b X Y num_iterations learning_rate print_cost =
     bindH (optimize_loop_h X Y learning_rate print_cost (py_range num_iterations)
              (LoopStateH w b None None [] [] [])) (\<lambda>s.
     let params = (hs_w s, hs_b s) in
     case hs_dw s of
       None \<Rightarrow> raiseH (UnboundLocalError ''dw'')
     | Some dw \<Rightarrow>
         (case hs_db s of
            None \<Rightarrow> raiseH (UnboundLocalError ''db'')
          | Some db \<Rightarrow> returnH (params, (dw, db), hs_costs s, hs_iterations s)))"

text \<open>
  \<open>predict\<close>: \<open>Y_prediction\<close> is allocated by \<open>np.zeros\<close> and then written entry
  by entry.
\<close>

definition h_getitem :: "ref \<Rightarrow> nat \<Rightarrow> nat \<Rightarrow> real heap_comp" where
  "h_getitem r i j = bindH (read_array r) (\<lambda>A. liftE (getitem A i j))"

definition h_setitem :: "ref \<Rightarrow> nat \<Rightarrow> nat \<Rightarrow> real \<Rightarrow> unit heap_comp" where
  "h_setitem r i j v =
     bindH (read_array r) (\<lambda>A. bindH (liftE (setitem A i j v)) (write_array r))"

definition predict_body_h :: "ref \<Rightarrow> nat \<Rightarrow> ref \<Rightarrow> unit heap_comp" where
  "predict_body_h A i Y_prediction =
     bindH (h_getitem A 0 i) (\<lambda>a.
       if a > 0.5 then h_setitem Y_prediction 0 i 1
       else h_setitem Y_prediction 0 i 0)"

fun predict_loop_h :: "ref \<Rightarrow> nat list \<Rightarrow> ref \<Rightarrow> unit heap_comp" where
  "predict_loop_h A [] Y_prediction = returnH ()"
| "predict_loop_h A (i # rest) Y_prediction =
     bindH (predict_body_h A i Y_prediction) (\<lambda>_. predict_loop_h A rest Y_prediction)"

definition predict_h :: "ref \<Rightarrow> real \<Rightarrow> ref \<Rightarrow> ref heap_comp" where
  "predict_h w b X =
     bindH (h_shape X) (\<lambda>shape_X.
     let m = snd shape_X in
     bindH (bindH (liftE (np_zeros 1 (int m))) new_array) (\<lambda>Y_prediction.
     bindH (bindH (read_array w) (\<lambda>W.
              bindH (liftE (np_reshape W (fst shape_X) 1)) new_array)) (\<lambda>w.
     bindH (h_map np_T w) (\<lambda>wT.
     bindH (h_op2 np_dot wT X) (\<lambda>Z.
     bindH (h_map (amap (\<lambda>z. z + b)) Z) (\<lambda>Zb.
     bindH (sigmoid_h Zb) (\<lambda>A.
     bindH (h_shape A) (\<lambda>shape_A.
     bindH (predict_loop_h A [0..<snd shape_A] Y_prediction) (\<lambda>_.
     bindH (h_shape Y_prediction) (\<lambda>shape_Y_prediction.
     if shape_Y_prediction \<noteq> (1, m) then raiseH AssertionError
     else returnH Y_prediction))))))))))"

text \<open>
  What a computation may do to a store. \<open>allocates_only\<close>: the final store is the
  initial one with new objects appended. \<open>keeps n\<close>: the first \<open>n\<close> objects are still
  there and unchanged, and the result satisfies \<open>Q\<close>.
\<close>

definition allocates_only :: "'a heap_comp \<Rightarrow> bool" where
  "allocates_only m \<longleftrightarrow> (\<forall>h x h'. m h = Inr (x, h') \<longrightarrow> (\<exists>t. h' = h @ t))"

definition keeps :: "nat \<Rightarrow> 'a heap_comp \<Rightarrow> ('a \<Rightarrow> bool) \<Rightarrow> bool" where
  "keeps n m Q \<longleftrightarrow>
     (\<forall>h x h'. n \<le> length h \<longrightarrow> m h = Inr (x, h') \<longrightarrow>
        n \<le> length h' \<and> take n h' = take n h \<and> Q x)"

text \<open>
  The loop state of the value-level \<open>optimize\<close> that a store and a loop state on
  references stand for, and the references of a loop state being allocated.
\<close>

definition abs_state :: "heap \<Rightarrow> loop_state_h \<Rightarrow> loop_state" where
  "abs_state h s =
     LoopState (h ! hs_w s) (hs_b s) (map_option (\<lambda>r. h ! r) (hs_dw s)) (hs_db s)
       (hs_costs s) (hs_iterations s) (hs_printed s)"

definition state_valid :: "heap \<Rightarrow> loop_state_h \<Rightarrow> bool" where
  "state_valid h s \<longleftrightarrow>
     hs_w s < length h \<and> (case hs_dw s of None \<Rightarrow> True | Some r \<Rightarrow> r < length h)"

section \<open>Properties\<close>

subsection \<open>Arrays\<close>

lemma bindE_simps [simp]:
  "bindE (Inl e) f = Inl e"
  "bindE (Inr x) f = f x"
  by (simp_all add: bindE_def)

lemma mk_sel [simp]:
  "nrows (mk r c f) = r"
  "ncols (mk r c f) = c"
  by (simp_all add: mk_def)

lemma wf_mk [simp]: "wf_array (mk r c f)"
  by (simp add: wf_array_def mk_def list_all_iff)

lemma item_mk [simp]: "i < r \<Longrightarrow> j < c \<Longrightarrow> item (mk r c f) i j = f i j"
  by (simp add: item_def mk_def)

lemma mk_cong: "(\<And>i j. i < r \<Longrightarrow> j < c \<Longrightarrow> f i j = g i j) \<Longrightarrow> mk r c f = mk r c g"
  by (simp add: mk_def)

lemma amap_sel [simp]:
  "nrows (amap f A) = nrows A"
  "ncols (amap f A) = ncols A"
  by (simp_all add: amap_def)

lemma wf_amap [simp]: "wf_array (amap f A)"
  by (simp add: amap_def)

lemma item_amap [simp]:
  "i < nrows A \<Longrightarrow> j < ncols A \<Longrightarrow> item (amap f A) i j = f (item A i j)"
  by (simp add: amap_def)

lemma amap_amap: "amap f (amap g A) = amap (\<lambda>x. f (g x)) A"
  unfolding amap_def mk_sel by (rule mk_cong) simp

lemma sigmoid_array_amap: "sigmoid_array z = amap sigmoid z"
  by (simp add: sigmoid_array_def amap_amap sigmoid_def [abs_def])

subsection \<open>sigmoid on the reals\<close>

lemma sigmoid_pos: "0 < sigmoid z"
  by (simp add: sigmoid_def add_pos_pos)

lemma sigmoid_less_one: "sigmoid z < 1"
  by (simp add: sigmoid_def add_pos_pos)

lemma sigmoid_zero: "sigmoid 0 = 1 / 2"
  by (simp add: sigmoid_def)

lemma sigmoid_strict_mono: "x < y \<Longrightarrow> sigmoid x < sigmoid y"
  by (simp add: sigmoid_def frac_less2 add_pos_pos)

lemma sigmoid_neg: "sigmoid (- z) = 1 - sigmoid z"
proof -
  have pos: "1 + exp z \<noteq> 0"
    using exp_gt_zero [of z] by linarith
  have "1 - sigmoid z = 1 - exp z / (1 + exp z)"
    by (simp add: sigmoid_def exp_minus field_simps)
  also have "\<dots> = 1 / (1 + exp z)"
    using pos by (simp add: field_simps)
  also have "\<dots> = sigmoid (- z)"
    by (simp add: sigmoid_def)
  finally show ?thesis by simp
qed

subsection \<open>The numpy operations on arrays given by their entries\<close>

lemma sum_list_upt_cong:
  "(\<And>k. k < n \<Longrightarrow> f k = g k) \<Longrightarrow> (\<Sum>k\<leftarrow>[0..<n]. f k) = (\<Sum>k\<leftarrow>[0..<n]. g k)"
  by (rule arg_cong [where f = sum_list]) simp

lemma amap_mk: "amap f (mk r c g) = mk r c (\<lambda>i j. f (g i j))"
  unfolding amap_def mk_sel by (rule mk_cong) simp

lemma np_T_mk: "np_T (mk r c g) = mk c r (\<lambda>i j. g j i)"
  unfolding np_T_def mk_sel by (rule mk_cong) simp

lemma np_dot_mk:
  "np_dot (mk r c f) (mk c c' g) = Inr (mk r c' (\<lambda>i j. \<Sum>k\<leftarrow>[0..<c]. f i k * g k j))"
proof -
  have "mk r c' (\<lambda>i j. \<Sum>k\<leftarrow>[0..<c]. item (mk r c f) i k * item (mk c c' g) k j)
      = mk r c' (\<lambda>i j. \<Sum>k\<leftarrow>[0..<c]. f i k * g k j)"
    by (rule mk_cong, rule sum_list_upt_cong) simp
  then show ?thesis
    by (simp add: np_dot_def)
qed

lemma bitem_mk: "i < r \<Longrightarrow> j < c \<Longrightarrow> bitem (mk r c f) i j = f i j"
  by (auto simp: bitem_def)

lemma broadcast2_mk:
  "broadcast2 h (mk r c f) (mk r c g) = Inr (mk r c (\<lambda>i j. h (f i j) (g i j)))"
proof -
  have "mk r c (\<lambda>i j. h (bitem (mk r c f) i j) (bitem (mk r c g) i j))
      = mk r c (\<lambda>i j. h (f i j) (g i j))"
    by (rule mk_cong) (simp add: bitem_mk)
  then show ?thesis
    by (simp add: broadcast2_def bdim_def)
qed

lemma np_sum_mk: "np_sum (mk r c f) = (\<Sum>i\<leftarrow>[0..<r]. \<Sum>j\<leftarrow>[0..<c]. f i j)"
  by (simp add: np_sum_def mk_def comp_def)

lemma mk_item: "wf_array A \<Longrightarrow> mk (nrows A) (ncols A) (item A) = A"
  by (cases A) (auto simp: wf_array_def mk_def item_def list_all_iff intro!: nth_equalityI)

lemmas array_simps =
  np_T_mk np_dot_mk sigmoid_array_amap amap_mk np_multiply_def np_add_def np_subtract_def
  broadcast2_mk np_sum_mk

subsection \<open>propagate\<close>

lemma propagate_mk:
  assumes "0 < N"
  shows "propagate (mk F 1 fw) b (mk F N fx) (mk 1 N fy) =
     Inr (Grads
            (mk F 1 (\<lambda>i j. spec_dw (mk F 1 fw) b (mk F N fx) (mk 1 N fy) i))
            (spec_db (mk F 1 fw) b (mk F N fx) (mk 1 N fy)),
          spec_cost (mk F 1 fw) b (mk F N fx) (mk 1 N fy))"
proof -
  let ?w = "mk F 1 fw" and ?X = "mk F N fx" and ?Y = "mk 1 N fy"
  let ?a = "\<lambda>j. sigmoid ((\<Sum>k\<leftarrow>[0..<F]. fw k 0 * fx k j) + b)"
  have act: "spec_activation ?w b ?X j = ?a j" if "j < N" for j
  proof -
    have "(\<Sum>k\<leftarrow>[0..<F]. item ?w k 0 * item ?X k j) = (\<Sum>k\<leftarrow>[0..<F]. fw k 0 * fx k j)"
      by (rule sum_list_upt_cong) (simp add: that)
    then show ?thesis
      by (simp add: spec_activation_def)
  qed
  have dw: "spec_dw ?w b ?X ?Y i = (\<Sum>j\<leftarrow>[0..<N]. fx i j * (?a j - fy 0 j)) / real N"
    if "i < F" for i
  proof -
    have "(\<Sum>j\<leftarrow>[0..<N]. item ?X i j * (spec_activation ?w b ?X j - item ?Y 0 j))
        = (\<Sum>j\<leftarrow>[0..<N]. fx i j * (?a j - fy 0 j))"
      by (rule sum_list_upt_cong) (simp add: that act [unfolded One_nat_def])
    then show ?thesis
      by (simp add: spec_dw_def)
  qed
  have db: "spec_db ?w b ?X ?Y = (\<Sum>j\<leftarrow>[0..<N]. ?a j - fy 0 j) / real N"
  proof -
    have "(\<Sum>j\<leftarrow>[0..<N]. spec_activation ?w b ?X j - item ?Y 0 j)
        = (\<Sum>j\<leftarrow>[0..<N]. ?a j - fy 0 j)"
      by (rule sum_list_upt_cong) (simp add: act [unfolded One_nat_def])
    then show ?thesis
      by (simp add: spec_db_def)
  qed
  have cost: "spec_cost ?w b ?X ?Y
      = - ((\<Sum>j\<leftarrow>[0..<N]. fy 0 j * ln (?a j) + (1 - fy 0 j) * ln (1 - ?a j)) / real N)"
  proof -
    have "(\<Sum>j\<leftarrow>[0..<N]. item ?Y 0 j * ln (spec_activation ?w b ?X j)
             + (1 - item ?Y 0 j) * ln (1 - spec_activation ?w b ?X j))
        = (\<Sum>j\<leftarrow>[0..<N]. fy 0 j * ln (?a j) + (1 - fy 0 j) * ln (1 - ?a j))"
      by (rule sum_list_upt_cong) (simp add: act [unfolded One_nat_def])
    then show ?thesis
      by (simp add: spec_cost_def)
  qed
  have dw_arr: "mk F (Suc 0) (\<lambda>i j. (\<Sum>k\<leftarrow>[0..<N]. fx i k *
            (sigmoid ((\<Sum>ka\<leftarrow>[0..<F]. fw ka j * fx ka k) + b) - fy j k)) / real N)
      = mk F (Suc 0) (\<lambda>i j. spec_dw ?w b ?X ?Y i)"
    by (rule mk_cong) (simp add: dw [unfolded One_nat_def])
  show ?thesis
    using assms dw_arr db [unfolded One_nat_def] cost [unfolded One_nat_def]
    by (simp add: propagate_def Let_def array_simps py_div_def shape_def)
qed

lemma propagate_well_shaped:
  assumes "well_shaped w X Y"
  shows "propagate w b X Y =
     Inr (Grads (mk (nrows X) 1 (\<lambda>i j. spec_dw w b X Y i)) (spec_db w b X Y), spec_cost w b X Y)"
proof -
  from assms have w: "w = mk (nrows X) 1 (item w)" and X: "X = mk (nrows X) (ncols X) (item X)"
    and Y: "Y = mk 1 (ncols X) (item Y)" and N: "0 < ncols X"
    by (auto simp: well_shaped_def shape_def dest: mk_item)
  show ?thesis
    using propagate_mk [OF N, of "nrows X" "item w" b "item X" "item Y"] w X Y
    by simp
qed

lemma upt_2: "[0..<2] = [0, 1]"
  by (simp add: upt_rec)

lemma bindE_assoc: "bindE (bindE m f) g = bindE m (\<lambda>x. bindE (f x) g)"
  by (cases m) simp_all

lemma optimize_loop_append:
  "optimize_loop X Y lr pc (xs @ ys) s =
     bindE (optimize_loop X Y lr pc xs s) (optimize_loop X Y lr pc ys)"
  by (induction xs arbitrary: s) (auto simp: bindE_def split: sum.splits)

lemma optimize_loop_snoc:
  "optimize_loop X Y lr pc (xs @ [n]) s =
     bindE (optimize_loop X Y lr pc xs s) (optimize_body X Y lr pc n)"
proof -
  have "optimize_loop X Y lr pc [n] s' = optimize_body X Y lr pc n s'" for s'
    by (cases "optimize_body X Y lr pc n s'") simp_all
  then have "optimize_loop X Y lr pc [n] = optimize_body X Y lr pc n"
    by (rule ext)
  then show ?thesis
    by (simp add: optimize_loop_append)
qed

lemma well_shaped_mk: "well_shaped w X Y \<Longrightarrow> well_shaped (mk (nrows X) 1 f) X Y"
  by (simp add: well_shaped_def shape_def)

lemma optimize_body_well_shaped:
  assumes "well_shaped (ls_w s) X Y"
  shows "optimize_body X Y lr pc i s =
     Inr (LoopState
            (mk (nrows X) 1 (\<lambda>k j. item (ls_w s) k 0 - lr * spec_dw (ls_w s) (ls_b s) X Y k))
            (ls_b s - lr * spec_db (ls_w s) (ls_b s) X Y)
            (Some (mk (nrows X) 1 (\<lambda>k j. spec_dw (ls_w s) (ls_b s) X Y k)))
            (Some (spec_db (ls_w s) (ls_b s) X Y))
            (if i mod 100 = 0 then ls_costs s @ [spec_cost (ls_w s) (ls_b s) X Y] else ls_costs s)
            (if i mod 100 = 0 then ls_iterations s @ [i] else ls_iterations s)
            (if pc \<and> i mod 100 = 0 then ls_printed s @ [(i, spec_cost (ls_w s) (ls_b s) X Y)]
             else ls_printed s))"
proof -
  let ?w = "ls_w s"
  let ?dw = "\<lambda>k. spec_dw ?w (ls_b s) X Y k"
  from assms have w: "mk (nrows X) 1 (item ?w) = ?w"
    by (auto simp: well_shaped_def shape_def dest: mk_item)
  have "np_subtract (mk (nrows X) 1 (item ?w)) (amap (\<lambda>x. lr * x) (mk (nrows X) 1 (\<lambda>k j. ?dw k)))
      = Inr (mk (nrows X) 1 (\<lambda>k j. item ?w k j - lr * ?dw k))"
    by (simp add: np_subtract_def amap_mk broadcast2_mk)
  also have "mk (nrows X) 1 (\<lambda>k j. item ?w k j - lr * ?dw k)
      = mk (nrows X) 1 (\<lambda>k j. item ?w k 0 - lr * ?dw k)"
    by (rule mk_cong) simp
  finally have "np_subtract ?w (amap (\<lambda>x. lr * x) (mk (nrows X) 1 (\<lambda>k j. ?dw k)))
      = Inr (mk (nrows X) 1 (\<lambda>k j. item ?w k 0 - lr * ?dw k))"
    by (simp only: w)
  then show ?thesis
    by (simp add: optimize_body_def propagate_well_shaped [OF assms] Let_def)
qed

lemma recorded_Suc:
  "recorded (Suc n) = (if n mod 100 = 0 then recorded n @ [n] else recorded n)"
  by (simp add: recorded_def)

lemma optimize_loop_invariant:
  assumes "well_shaped w X Y"
  shows "\<exists>s. optimize_loop X Y lr pc [0..<n] (LoopState w b None None [] [] []) = Inr s \<and>
           well_shaped (ls_w s) X Y \<and>
           ls_iterations s = recorded n \<and>
           length (ls_costs s) = length (recorded n) \<and>
           (\<forall>k<length (recorded n). \<exists>s' g.
              optimize_loop X Y lr pc [0..<recorded n ! k] (LoopState w b None None [] [] [])
                = Inr s' \<and>
              propagate (ls_w s') (ls_b s') X Y = Inr (g, ls_costs s ! k)) \<and>
           (0 < n \<longrightarrow> ls_dw s \<noteq> None \<and> ls_db s \<noteq> None)"
proof (induction n)
  case 0
  from assms show ?case
    by (simp add: recorded_def)
next
  case (Suc n)
  let ?init = "LoopState w b None None [] [] []"
  from Suc obtain s where
    run: "optimize_loop X Y lr pc [0..<n] ?init = Inr s" and
    ws: "well_shaped (ls_w s) X Y" and
    its: "ls_iterations s = recorded n" and
    len: "length (ls_costs s) = length (recorded n)" and
    costs: "\<forall>k<length (recorded n). \<exists>s' g.
              optimize_loop X Y lr pc [0..<recorded n ! k] ?init = Inr s' \<and>
              propagate (ls_w s') (ls_b s') X Y = Inr (g, ls_costs s ! k)"
    by blast
  note body = optimize_body_well_shaped [OF ws, of lr pc n]
  note cost_n = propagate_well_shaped [OF ws, of "ls_b s"]
  show ?case
  proof (cases "n mod 100 = 0")
    case False
    with run ws its len costs body show ?thesis
      by (simp add: optimize_loop_snoc recorded_Suc well_shaped_mk [unfolded One_nat_def])
  next
    case True
    have "\<exists>s' g. optimize_loop X Y lr pc [0..<(recorded n @ [n]) ! k] ?init = Inr s' \<and>
            propagate (ls_w s') (ls_b s') X Y
              = Inr (g, (ls_costs s @ [spec_cost (ls_w s) (ls_b s) X Y]) ! k)"
      if "k < Suc (length (recorded n))" for k
    proof (cases "k < length (recorded n)")
      case True
      with costs len show ?thesis
        by (simp add: nth_append)
    next
      case False
      with that have "k = length (recorded n)"
        by simp
      with run cost_n len show ?thesis
        by (simp add: nth_append)
    qed
    with True run ws its len body show ?thesis
      by (simp add: optimize_loop_snoc recorded_Suc well_shaped_mk [unfolded One_nat_def])
  qed
qed

subsection \<open>optimize\<close>

lemma optimize_returns:
  assumes "well_shaped w X Y" and "1 \<le> num_iterations"
  shows "\<exists>s dw db.
           optimize_loop X Y lr pc [0..<nat num_iterations] (LoopState w b None None [] [] [])
             = Inr s \<and>
           ls_dw s = Some dw \<and> ls_db s = Some db \<and>
           optimize w b X Y num_iterations lr pc
             = Inr (Params (ls_w s) (ls_b s), Grads dw db, ls_costs s, ls_iterations s)"
proof -
  from assms(2) have n: "0 < nat num_iterations"
    by simp
  from optimize_loop_invariant [OF assms(1), of lr pc "nat num_iterations" b] n
  obtain s where
    run: "optimize_loop X Y lr pc [0..<nat num_iterations] (LoopState w b None None [] [] [])
            = Inr s" and
    bound: "ls_dw s \<noteq> None" "ls_db s \<noteq> None"
    by blast
  then obtain dw db where "ls_dw s = Some dw" "ls_db s = Some db"
    by blast
  with run show ?thesis
    by (simp add: optimize_def py_range_def)
qed

lemma optimize_loop_zero_rate:
  assumes "well_shaped w X Y"
  shows "\<exists>s. optimize_loop X Y 0 pc [0..<n] (LoopState w b dw db cs is ps) = Inr s \<and>
           ls_w s = w \<and> ls_b s = b"
proof (induction n)
  case 0
  show ?case by simp
next
  case (Suc n)
  then obtain s where
    run: "optimize_loop X Y 0 pc [0..<n] (LoopState w b dw db cs is ps) = Inr s" and
    same: "ls_w s = w" "ls_b s = b"
    by blast
  from assms same have ws: "well_shaped (ls_w s) X Y"
    by simp
  from assms have "mk (nrows X) 1 (\<lambda>k j. item w k 0) = mk (nrows X) 1 (item w)"
    by (intro mk_cong) simp
  also from assms have "\<dots> = w"
    by (auto simp: well_shaped_def shape_def dest: mk_item)
  finally have "mk (nrows X) 1 (\<lambda>k j. item w k 0) = w" .
  with run same optimize_body_well_shaped [OF ws, of 0 pc n] show ?case
    by (simp add: optimize_loop_snoc)
qed

lemma optimize_zero_rate_noop:
  assumes "well_shaped w X Y" and "1 \<le> num_iterations"
  shows "\<exists>grads costs iterations.
           optimize w b X Y num_iterations 0 print_cost = Inr (Params w b, grads, costs, iterations)"
proof -
  from optimize_loop_zero_rate [OF assms(1), of print_cost "nat num_iterations" b None None "[]" "[]" "[]"]
    optimize_returns [OF assms, of 0 print_cost b]
  show ?thesis
    by auto
qed

lemma unpack3_tuple_of_result:
  "unpack3 (tuple_of_result r) = Inl (ValueError TooManyValuesToUnpack)"
  by (cases r) (simp add: unpack3_def tuple_of_result_def)

lemma model_unpack:
  "bindE (unpack3 (tuple_of_result r)) f = Inl (ValueError TooManyValuesToUnpack)"
  by (simp add: unpack3_tuple_of_result)

lemma model_never_returns:
  "model X_train Y_train X_test Y_test num_iterations learning_rate print_cost \<noteq> Inr d"
  by (auto simp: model_def unpack3_tuple_of_result bindE_def split: sum.splits)

lemma model_raises:
  assumes "wf_array X_train" and "wf_array Y_train" and "shape Y_train = (1, ncols X_train)"
    and "1 \<le> ncols X_train" and "1 \<le> num_iterations"
  shows "model X_train Y_train X_test Y_test num_iterations learning_rate print_cost
           = Inl (ValueError TooManyValuesToUnpack)"
proof -
  let ?w = "mk (nrows X_train) 1 (\<lambda>i j. 0)"
  have init: "initialize_with_zeros (int (nrows X_train)) = Inr (?w, 0)"
    by (simp add: initialize_with_zeros_def np_zeros_def shape_def)
  from assms have "well_shaped ?w X_train Y_train"
    by (simp add: well_shaped_def shape_def)
  from optimize_returns [OF this assms(5), of learning_rate print_cost 0]
  obtain r where "optimize ?w 0 X_train Y_train num_iterations learning_rate print_cost = Inr r"
    by blast
  with init show ?thesis
    by (simp add: model_def model_unpack)
qed

lemma recorded_101: "filter (\<lambda>i. i mod 100 = 0) [0..<101] = [0, 100::nat]"
  by code_simp

lemma example_well_shaped:
  "well_shaped (NDArray 2 1 [[0], [0]]) (NDArray 2 2 [[1, 0], [0, 1]]) (NDArray 1 2 [[1, 0]])"
  by (simp add: well_shaped_def wf_array_def shape_def)

lemma example_cost:
  "spec_cost (NDArray 2 1 [[0], [0]]) 0 (NDArray 2 2 [[1, 0], [0, 1]]) (NDArray 1 2 [[1, 0]]) = ln 2"
  by (simp add: spec_cost_def spec_activation_def item_def upt_2 sigmoid_zero ln_div)

subsection \<open>predict\<close>

lemma predict_loop_snoc:
  "predict_loop A (xs @ [i]) P = bindE (predict_loop A xs P) (predict_body A i)"
proof (induction xs arbitrary: P)
  case Nil
  show ?case
    by (cases "predict_body A i P") simp_all
next
  case (Cons x xs)
  then show ?case
    by (cases "predict_body A x P") simp_all
qed

lemma setitem_mk:
  assumes "i < r" and "j < c"
  shows "setitem (mk r c f) i j v
           = Inr (mk r c (\<lambda>i' j'. if i' = i \<and> j' = j then v else f i' j'))"
proof -
  let ?rows = "map (\<lambda>i. map (\<lambda>j. f i j) [0..<c]) [0..<r]"
  have "?rows[i := (?rows ! i)[j := v]]
      = map (\<lambda>i'. map (\<lambda>j'. if i' = i \<and> j' = j then v else f i' j') [0..<c]) [0..<r]"
    using assms by (auto intro!: nth_equalityI simp: nth_list_update)
  with assms show ?thesis
    by (simp add: setitem_def mk_def)
qed

lemma predict_body_mk:
  assumes "n < N"
  shows "predict_body (mk 1 N a) n (mk 1 N p)
           = Inr (mk 1 N (\<lambda>i j. if j = n then (if a 0 n > 1 / 2 then 1 else 0) else p i j))"
proof -
  have "mk 1 N (\<lambda>i' j'. if i' = 0 \<and> j' = n then v else p i' j')
      = mk 1 N (\<lambda>i j. if j = n then v else p i j)" for v
    by (rule mk_cong) simp
  with assms show ?thesis
    by (simp add: predict_body_def getitem_def setitem_mk)
qed

lemma predict_loop_mk:
  assumes "n \<le> N"
  shows "predict_loop (mk 1 N a) [0..<n] (mk 1 N p)
           = Inr (mk 1 N (\<lambda>i j. if j < n then (if a 0 j > 1 / 2 then 1 else 0) else p i j))"
  using assms
proof (induction n)
  case 0
  show ?case by simp
next
  case (Suc n)
  let ?done = "\<lambda>n (i::nat) j. if j < n then (if a 0 j > 1 / 2 then 1 else 0) else p i j"
  from Suc have IH: "predict_loop (mk 1 N a) [0..<n] (mk 1 N p) = Inr (mk 1 N (?done n))"
    and n: "n < N"
    by simp_all
  have "predict_loop (mk 1 N a) [0..<Suc n] (mk 1 N p)
      = bindE (predict_loop (mk 1 N a) [0..<n] (mk 1 N p)) (predict_body (mk 1 N a) n)"
    by (simp only: upt_Suc_append [OF le0] predict_loop_snoc)
  also have "\<dots> = predict_body (mk 1 N a) n (mk 1 N (?done n))"
    by (simp only: IH bindE_simps)
  also have "\<dots> = Inr (mk 1 N (\<lambda>i j. if j = n then (if a 0 n > 1 / 2 then 1 else 0)
                                      else ?done n i j))"
    using n by (rule predict_body_mk)
  also have "mk 1 N (\<lambda>i j. if j = n then (if a 0 n > 1 / 2 then 1 else 0) else ?done n i j)
      = mk 1 N (?done (Suc n))"
    by (rule mk_cong) (auto simp: less_Suc_eq)
  finally show ?case .
qed

lemma predict_result:
  assumes "wf_array X" and "nrows w * ncols w = nrows X"
  shows "predict w b X
           = Inr (mk 1 (ncols X)
                    (\<lambda>i j. if spec_predict_activation w b X j > 1 / 2 then 1 else 0))"
proof -
  let ?F = "nrows X" and ?N = "ncols X"
  let ?flat = "\<lambda>i j. concat (elems w) ! (i * 1 + j)"
  let ?act = "\<lambda>(i::nat) j. spec_predict_activation w b X j"
  let ?out = "\<lambda>(i::nat) j. if spec_predict_activation w b X j > 1 / 2 then 1 else (0::real)"
  from assms have X: "X = mk ?F ?N (item X)"
    by (simp add: mk_item)
  have zeros: "np_zeros 1 (int ?N) = Inr (mk 1 ?N (\<lambda>i j. 0))"
    by (simp add: np_zeros_def)
  have reshape: "np_reshape w ?F 1 = Inr (mk ?F 1 ?flat)"
    using assms(2) by (simp add: np_reshape_def)
  have "np_dot (np_T (mk ?F 1 ?flat)) (mk ?F ?N (item X))
      = Inr (mk 1 ?N (\<lambda>i j. \<Sum>k\<leftarrow>[0..<?F]. ?flat k i * item X k j))"
    by (simp only: np_T_mk np_dot_mk)
  then have dot: "np_dot (np_T (mk ?F 1 ?flat)) X
      = Inr (mk 1 ?N (\<lambda>i j. \<Sum>k\<leftarrow>[0..<?F]. ?flat k i * item X k j))"
    by (simp only: X [symmetric])
  have "mk 1 ?N (\<lambda>i j. sigmoid ((\<Sum>k\<leftarrow>[0..<?F]. ?flat k i * item X k j) + b)) = mk 1 ?N ?act"
    by (rule mk_cong) (simp add: spec_predict_activation_def)
  then have act: "sigmoid_array (amap (\<lambda>z. z + b)
        (mk 1 ?N (\<lambda>i j. \<Sum>k\<leftarrow>[0..<?F]. ?flat k i * item X k j))) = mk 1 ?N ?act"
    by (simp only: sigmoid_array_amap amap_mk)
  have "mk 1 ?N (\<lambda>i j. if j < ?N then ?out i j else 0) = mk 1 ?N ?out"
    by (rule mk_cong) simp
  then have loop: "predict_loop (mk 1 ?N ?act) [0..<?N] (mk 1 ?N (\<lambda>i j. 0)) = Inr (mk 1 ?N ?out)"
    by (simp only: predict_loop_mk [OF order_refl])
  have shape: "shape (mk 1 ?N ?out) = (1, ?N)"
    by (simp only: shape_def mk_sel)
  show ?thesis
    by (simp only: predict_def Let_def zeros reshape dot act loop shape bindE_simps mk_sel
        simp_thms if_False)
qed

lemma spec_predict_activation_column:
  assumes "wf_array w" and "shape w = (nrows X, 1)"
  shows "spec_predict_activation w b X j = spec_activation w b X j"
proof -
  from assms have w: "w = mk (nrows X) 1 (item w)"
    by (auto simp: shape_def dest: mk_item)
  have "concat (elems (mk r 1 f)) = map (\<lambda>k. f k 0) [0..<r]" for r and f :: "nat \<Rightarrow> nat \<Rightarrow> real"
    by (induction r) (simp_all add: mk_def)
  with w have "concat (elems w) = map (\<lambda>k. item w k 0) [0..<nrows X]"
    by metis
  then have "(\<Sum>k\<leftarrow>[0..<nrows X]. concat (elems w) ! k * item X k j)
      = (\<Sum>k\<leftarrow>[0..<nrows X]. item w k 0 * item X k j)"
    by (intro sum_list_upt_cong) simp
  then show ?thesis
    by (simp add: spec_predict_activation_def spec_activation_def)
qed

subsection \<open>The store\<close>

lemma allocates_only_returnH [intro!]: "allocates_only (returnH x)"
  by (simp add: allocates_only_def returnH_def)

lemma allocates_only_raiseH [intro!]: "allocates_only (raiseH e)"
  by (simp add: allocates_only_def raiseH_def)

lemma allocates_only_liftE [intro!]: "allocates_only (liftE r)"
  by (cases r) (auto simp: liftE_def)

lemma allocates_only_new_array [intro!]: "allocates_only (new_array A)"
  by (simp add: allocates_only_def new_array_def)

lemma allocates_only_read_array [intro!]: "allocates_only (read_array r)"
  by (simp add: allocates_only_def read_array_def)

lemma allocates_only_bindH [intro!]:
  assumes "allocates_only m" and "\<And>x. allocates_only (f x)"
  shows "allocates_only (bindH m f)"
  unfolding allocates_only_def
proof (intro allI impI)
  fix h x h'
  assume "bindH m f h = Inr (x, h')"
  then obtain y h1 where m: "m h = Inr (y, h1)" and f: "f y h1 = Inr (x, h')"
    by (auto simp: bindH_def split: sum.splits)
  from assms(1) m have "\<exists>t. h1 = h @ t"
    unfolding allocates_only_def by blast
  moreover from assms(2) [of y] f have "\<exists>t. h' = h1 @ t"
    unfolding allocates_only_def by blast
  ultimately show "\<exists>t. h' = h @ t"
    by auto
qed

lemma allocates_only_if [intro!]:
  "allocates_only m \<Longrightarrow> allocates_only m' \<Longrightarrow> allocates_only (if c then m else m')"
  by simp

lemma allocates_only_h_map [intro!]: "allocates_only (h_map f r)"
  unfolding h_map_def by blast

lemma allocates_only_h_op2 [intro!]: "allocates_only (h_op2 f r1 r2)"
  unfolding h_op2_def by blast

lemma allocates_only_h_sum [intro!]: "allocates_only (h_sum r)"
  unfolding h_sum_def by blast

lemma allocates_only_h_shape [intro!]: "allocates_only (h_shape r)"
  unfolding h_shape_def by blast

lemma allocates_only_sigmoid_h [intro!]: "allocates_only (sigmoid_h z)"
  unfolding sigmoid_h_def by blast

lemma allocates_only_propagate_h: "allocates_only (propagate_h w b X Y)"
  unfolding propagate_h_def Let_def by (intro allocates_only_bindH allocates_only_if) blast+

lemma allocates_only_optimize_body_h: "allocates_only (optimize_body_h X Y lr pc i s)"
  unfolding optimize_body_h_def Let_def
  by (intro allocates_only_bindH allocates_only_propagate_h) (auto split: prod.splits)

lemma allocates_only_optimize_loop_h: "allocates_only (optimize_loop_h X Y lr pc is s)"
  by (induction "is" arbitrary: s) (auto intro: allocates_only_optimize_body_h)

lemma allocates_only_optimize_h: "allocates_only (optimize_h w b X Y n lr pc)"
  unfolding optimize_h_def Let_def
  by (intro allocates_only_bindH allocates_only_optimize_loop_h) (auto split: option.splits)

lemma liftE_exec: "liftE r h = (case r of Inl e \<Rightarrow> Inl e | Inr x \<Rightarrow> Inr (x, h))"
  by (cases r) (simp_all add: liftE_def raiseH_def returnH_def)

lemma read_array_exec: "r < length h \<Longrightarrow> read_array r h = Inr (h ! r, h)"
  by (simp add: read_array_def)

lemma h_map_exec: "r < length h \<Longrightarrow> h_map f r h = Inr (length h, h @ [f (h ! r)])"
  by (simp add: h_map_def bindH_def read_array_def new_array_def)

lemma h_op2_exec:
  "r1 < length h \<Longrightarrow> r2 < length h \<Longrightarrow>
   h_op2 f r1 r2 h =
     (case f (h ! r1) (h ! r2) of Inl e \<Rightarrow> Inl e | Inr C \<Rightarrow> Inr (length h, h @ [C]))"
  by (simp add: h_op2_def bindH_def read_array_def new_array_def liftE_exec split: sum.splits)

lemma h_sum_exec: "r < length h \<Longrightarrow> h_sum r h = Inr (np_sum (h ! r), h)"
  by (simp add: h_sum_def bindH_def read_array_def returnH_def)

lemma h_shape_exec: "r < length h \<Longrightarrow> h_shape r h = Inr (shape (h ! r), h)"
  by (simp add: h_shape_def bindH_def read_array_def returnH_def)

lemma sigmoid_h_exec:
  "z < length h \<Longrightarrow>
   sigmoid_h z h =
     Inr (length h + 3,
          h @ [amap uminus (h ! z), amap exp (amap uminus (h ! z)),
               amap (\<lambda>x. 1 + x) (amap exp (amap uminus (h ! z))), sigmoid_array (h ! z)])"
  by (simp add: sigmoid_h_def bindH_def h_map_exec nth_append sigmoid_array_def)

lemmas heap_exec =
  bindH_def liftE_exec read_array_exec h_map_exec h_op2_exec h_sum_exec h_shape_exec
  sigmoid_h_exec returnH_def raiseH_def nth_append

lemma propagate_h_refines:
  assumes "w < length h" and "X < length h" and "Y < length h"
  shows "case propagate (h ! w) b (h ! X) (h ! Y) of
           Inl e \<Rightarrow> propagate_h w b X Y h = Inl e
         | Inr (g, cost) \<Rightarrow>
             (\<exists>t. propagate_h w b X Y h = Inr (((length h + 17, grads_db g), cost), h @ t) \<and>
                  length t = 19 \<and> t ! 17 = grads_dw g)"
  using assms
  by (simp add: propagate_h_def propagate_def Let_def heap_exec py_div_def shape_def bindE_def
      split: sum.splits)


lemma optimize_body_h_refines:
  assumes "state_valid h s" and "X < length h" and "Y < length h"
  shows "case optimize_body (h ! X) (h ! Y) lr pc i (abs_state h s) of
           Inl e \<Rightarrow> optimize_body_h X Y lr pc i s h = Inl e
         | Inr s' \<Rightarrow>
             (\<exists>t sh. optimize_body_h X Y lr pc i s h = Inr (sh, h @ t) \<and>
                     state_valid (h @ t) sh \<and> abs_state (h @ t) sh = s' \<and>
                     length h \<le> hs_w sh)"
proof -
  from assms have w: "hs_w s < length h"
    by (simp add: state_valid_def)
  note ref = propagate_h_refines [OF w assms(2,3), of "hs_b s"]
  show ?thesis
  proof (cases "propagate (h ! hs_w s) (hs_b s) (h ! X) (h ! Y)")
    case (Inl e)
    with ref show ?thesis
      by (simp add: optimize_body_def optimize_body_h_def abs_state_def bindH_def)
  next
    case (Inr gc)
    obtain g cost where gc: "gc = (g, cost)"
      by (cases gc)
    with Inr ref obtain t where
      run: "propagate_h (hs_w s) (hs_b s) X Y h
              = Inr (((length h + 17, grads_db g), cost), h @ t)" and
      t: "length t = 19" "t ! 17 = grads_dw g"
      by auto
    let ?step = "amap (\<lambda>x. lr * x) (grads_dw g)"
    show ?thesis
    proof (cases "np_subtract (h ! hs_w s) ?step")
      case (Inl e)
      with \<open>propagate (h ! hs_w s) (hs_b s) (h ! X) (h ! Y) = Inr gc\<close> gc run t w show ?thesis
        by (simp add: optimize_body_def optimize_body_h_def abs_state_def Let_def heap_exec)
    next
      case (Inr w')
      let ?sh = "LoopStateH (length h + 20) (hs_b s - lr * grads_db g)
                   (Some (length h + 17)) (Some (grads_db g))
                   (if i mod 100 = 0 then hs_costs s @ [cost] else hs_costs s)
                   (if i mod 100 = 0 then hs_iterations s @ [i] else hs_iterations s)
                   (if pc \<and> i mod 100 = 0 then hs_printed s @ [(i, cost)] else hs_printed s)"
      from Inr run t w
      have runh: "optimize_body_h X Y lr pc i s h = Inr (?sh, h @ (t @ [?step, w']))"
        by (simp add: optimize_body_h_def Let_def heap_exec)
      from \<open>propagate (h ! hs_w s) (hs_b s) (h ! X) (h ! Y) = Inr gc\<close> gc Inr
      have runp: "optimize_body (h ! X) (h ! Y) lr pc i (abs_state h s)
          = Inr (LoopState w' (hs_b s - lr * grads_db g) (Some (grads_dw g)) (Some (grads_db g))
                   (if i mod 100 = 0 then hs_costs s @ [cost] else hs_costs s)
                   (if i mod 100 = 0 then hs_iterations s @ [i] else hs_iterations s)
                   (if pc \<and> i mod 100 = 0 then hs_printed s @ [(i, cost)] else hs_printed s))"
        by (simp add: optimize_body_def abs_state_def Let_def)
      from t have "state_valid (h @ (t @ [?step, w'])) ?sh"
        "abs_state (h @ (t @ [?step, w'])) ?sh
           = LoopState w' (hs_b s - lr * grads_db g) (Some (grads_dw g)) (Some (grads_db g))
               (if i mod 100 = 0 then hs_costs s @ [cost] else hs_costs s)
               (if i mod 100 = 0 then hs_iterations s @ [i] else hs_iterations s)
               (if pc \<and> i mod 100 = 0 then hs_printed s @ [(i, cost)] else hs_printed s)"
        by (simp_all add: state_valid_def abs_state_def nth_append)
      with runh runp show ?thesis
        by (auto intro!: exI [of _ "t @ [?step, w']"] exI [of _ ?sh])
    qed
  qed
qed

lemma abs_state_append:
  "state_valid h s \<Longrightarrow> abs_state (h @ t) s = abs_state h s"
  by (auto simp: abs_state_def state_valid_def nth_append split: option.splits)

lemma state_valid_append: "state_valid h s \<Longrightarrow> state_valid (h @ t) s"
  by (auto simp: state_valid_def split: option.splits)

lemma optimize_loop_h_refines:
  assumes "state_valid h s" and "X < length h" and "Y < length h"
  shows "case optimize_loop (h ! X) (h ! Y) lr pc is (abs_state h s) of
           Inl e \<Rightarrow> optimize_loop_h X Y lr pc is s h = Inl e
         | Inr s' \<Rightarrow>
             (\<exists>t sh. optimize_loop_h X Y lr pc is s h = Inr (sh, h @ t) \<and>
                     state_valid (h @ t) sh \<and> abs_state (h @ t) sh = s' \<and>
                     (is \<noteq> [] \<longrightarrow> length h \<le> hs_w sh))"
  using assms
proof (induction "is" arbitrary: h s)
  case Nil
  then show ?case
    by (simp add: returnH_def)
next
  case (Cons i rest)
  note body = optimize_body_h_refines [OF Cons.prems, of lr pc i]
  show ?case
  proof (cases "optimize_body (h ! X) (h ! Y) lr pc i (abs_state h s)")
    case (Inl e)
    with body show ?thesis
      by (simp add: bindH_def)
  next
    case (Inr s1)
    with body obtain t1 sh1 where
      run1: "optimize_body_h X Y lr pc i s h = Inr (sh1, h @ t1)" and
      valid1: "state_valid (h @ t1) sh1" and
      abs1: "abs_state (h @ t1) sh1 = s1" and
      fresh1: "length h \<le> hs_w sh1"
      by auto
    from Cons.prems have refs: "X < length (h @ t1)" "Y < length (h @ t1)"
      and same: "(h @ t1) ! X = h ! X" "(h @ t1) ! Y = h ! Y"
      by (simp_all add: nth_append)
    note rest = Cons.IH [OF valid1 refs, unfolded same abs1]
    show ?thesis
    proof (cases "optimize_loop (h ! X) (h ! Y) lr pc rest s1")
      case (Inl e)
      with rest Inr run1 show ?thesis
        by (simp add: bindH_def)
    next
      case (Inr s2)
      with rest obtain t2 sh2 where
        run2: "optimize_loop_h X Y lr pc rest sh1 (h @ t1) = Inr (sh2, (h @ t1) @ t2)" and
        valid2: "state_valid ((h @ t1) @ t2) sh2" and
        abs2: "abs_state ((h @ t1) @ t2) sh2 = s2" and
        fresh2: "rest \<noteq> [] \<longrightarrow> length (h @ t1) \<le> hs_w sh2"
        by auto
      have "length h \<le> hs_w sh2"
      proof (cases rest)
        case Nil
        with run2 fresh1 show ?thesis
          by (simp add: returnH_def)
      next
        case (Cons a list)
        with fresh2 show ?thesis
          by simp
      qed
      with \<open>optimize_body (h ! X) (h ! Y) lr pc i (abs_state h s) = Inr s1\<close> Inr run1 run2
        valid2 abs2
      show ?thesis
        by (auto simp: bindH_def intro!: exI [of _ "t1 @ t2"])
    qed
  qed
qed

lemma keeps_allocates_only: "allocates_only m \<Longrightarrow> keeps n m (\<lambda>x. True)"
  unfolding keeps_def allocates_only_def by fastforce

lemma keeps_bindH:
  assumes "keeps n m Q" and "\<And>x. Q x \<Longrightarrow> keeps n (f x) R"
  shows "keeps n (bindH m f) R"
  unfolding keeps_def
proof (intro allI impI)
  fix h x h'
  assume n: "n \<le> length h" and run: "bindH m f h = Inr (x, h')"
  from run obtain y h1 where m: "m h = Inr (y, h1)" and f: "f y h1 = Inr (x, h')"
    by (auto simp: bindH_def split: sum.splits)
  from assms(1) n m have 1: "n \<le> length h1" "take n h1 = take n h" "Q y"
    unfolding keeps_def by blast+
  from assms(2) [OF 1(3)] 1(1) f have "n \<le> length h'" "take n h' = take n h1" "R x"
    unfolding keeps_def by blast+
  with 1 show "n \<le> length h' \<and> take n h' = take n h \<and> R x"
    by simp
qed

lemma keeps_new_array: "keeps n (new_array A) (\<lambda>r. n \<le> r)"
  by (auto simp: keeps_def new_array_def)

lemma keeps_write_array: "n \<le> r \<Longrightarrow> keeps n (write_array r A) (\<lambda>x. True)"
  by (auto simp: keeps_def write_array_def split: if_splits)

lemma keeps_returnH: "Q x \<Longrightarrow> keeps n (returnH x) Q"
  by (simp add: keeps_def returnH_def)

lemma keeps_raiseH: "keeps n (raiseH e) Q"
  by (simp add: keeps_def raiseH_def)

lemma keeps_h_setitem: "n \<le> r \<Longrightarrow> keeps n (h_setitem r i j v) (\<lambda>x. True)"
  unfolding h_setitem_def
  by (intro keeps_bindH [where Q = "\<lambda>x. True"] keeps_allocates_only keeps_write_array)
    auto

lemma keeps_predict_body_h:
  "n \<le> Y_prediction \<Longrightarrow> keeps n (predict_body_h A i Y_prediction) (\<lambda>x. True)"
  unfolding predict_body_h_def
proof (rule keeps_bindH [where Q = "\<lambda>x. True"])
  have "allocates_only (h_getitem A 0 i)"
    unfolding h_getitem_def by blast
  then show "keeps n (h_getitem A 0 i) (\<lambda>x. True)"
    by (rule keeps_allocates_only)
next
  fix a :: real
  assume "n \<le> Y_prediction"
  then show "keeps n (if a > 0.5 then h_setitem Y_prediction 0 i 1
                     else h_setitem Y_prediction 0 i 0) (\<lambda>x. True)"
    by (simp add: keeps_h_setitem)
qed

lemma keeps_predict_loop_h:
  "n \<le> Y_prediction \<Longrightarrow> keeps n (predict_loop_h A is Y_prediction) (\<lambda>x. True)"
proof (induction "is")
  case Nil
  show ?case
    by (simp add: keeps_returnH)
next
  case (Cons i rest)
  then show ?case
    by (auto intro!: keeps_bindH [where Q = "\<lambda>x. True"] keeps_predict_body_h)
qed

lemma keeps_predict_h: "keeps n (predict_h w b X) (\<lambda>r. n \<le> r)"
  unfolding predict_h_def Let_def
proof (rule keeps_bindH [where Q = "\<lambda>x. True"])
  show "keeps n (h_shape X) (\<lambda>x. True)"
    by (intro keeps_allocates_only) blast
next
  fix shape_X :: "nat \<times> nat"
  show "keeps n
     (bindH (bindH (liftE (np_zeros 1 (int (snd shape_X)))) new_array) (\<lambda>Y_prediction.
      bindH (bindH (read_array w) (\<lambda>W.
               bindH (liftE (np_reshape W (fst shape_X) 1)) new_array)) (\<lambda>w.
      bindH (h_map np_T w) (\<lambda>wT.
      bindH (h_op2 np_dot wT X) (\<lambda>Z.
      bindH (h_map (amap (\<lambda>z. z + b)) Z) (\<lambda>Zb.
      bindH (sigmoid_h Zb) (\<lambda>A.
      bindH (h_shape A) (\<lambda>shape_A.
      bindH (predict_loop_h A [0..<snd shape_A] Y_prediction) (\<lambda>_.
      bindH (h_shape Y_prediction) (\<lambda>shape_Y_prediction.
      if shape_Y_prediction \<noteq> (1, snd shape_X) then raiseH AssertionError
      else returnH Y_prediction))))))))))
     (\<lambda>r. n \<le> r)"
  proof (rule keeps_bindH [where Q = "\<lambda>r. n \<le> r"])
    show "keeps n (bindH (liftE (np_zeros 1 (int (snd shape_X)))) new_array) (\<lambda>r. n \<le> r)"
      by (intro keeps_bindH [where Q = "\<lambda>x. True"] keeps_allocates_only keeps_new_array) blast
  next
    fix Y_prediction :: ref
    assume fresh: "n \<le> Y_prediction"
    have alloc: "keeps n m (\<lambda>x. True)" if "allocates_only m" for m :: "'b heap_comp"
      using that by (rule keeps_allocates_only)
    show "keeps n
       (bindH (bindH (read_array w) (\<lambda>W.
                bindH (liftE (np_reshape W (fst shape_X) 1)) new_array)) (\<lambda>w.
        bindH (h_map np_T w) (\<lambda>wT.
        bindH (h_op2 np_dot wT X) (\<lambda>Z.
        bindH (h_map (amap (\<lambda>z. z + b)) Z) (\<lambda>Zb.
        bindH (sigmoid_h Zb) (\<lambda>A.
        bindH (h_shape A) (\<lambda>shape_A.
        bindH (predict_loop_h A [0..<snd shape_A] Y_prediction) (\<lambda>_.
        bindH (h_shape Y_prediction) (\<lambda>shape_Y_prediction.
        if shape_Y_prediction \<noteq> (1, snd shape_X) then raiseH AssertionError
        else returnH Y_prediction)))))))))
       (\<lambda>r. n \<le> r)"
      using fresh
      by (intro keeps_bindH [where Q = "\<lambda>x. True"] alloc keeps_predict_loop_h)
        (auto intro: keeps_raiseH keeps_returnH)
  qed
qed

lemma allocates_only_length:
  "allocates_only m \<Longrightarrow> m h = Inr (x, h') \<Longrightarrow> length h \<le> length h'"
  unfolding allocates_only_def by fastforce

lemma h_op2_ref: "h_op2 f r1 r2 h = Inr (r, h') \<Longrightarrow> r = length h"
  by (auto simp: h_op2_def bindH_def read_array_def liftE_exec new_array_def
      split: if_splits sum.splits)

lemma optimize_body_h_fresh:
  assumes "optimize_body_h X Y lr pc i s h = Inr (s', h')"
  shows "length h \<le> hs_w s'"
proof -
  from assms obtain g c h1 step h2 w' where
    p: "propagate_h (hs_w s) (hs_b s) X Y h = Inr ((g, c), h1)" and
    m: "h_map (amap (\<lambda>x. lr * x)) (fst g) h1 = Inr (step, h2)" and
    s: "h_op2 np_subtract (hs_w s) step h2 = Inr (w', h')" and
    w: "hs_w s' = w'"
    by (auto simp: optimize_body_h_def bindH_def Let_def returnH_def split: sum.splits)
  from p have "length h \<le> length h1"
    by (rule allocates_only_length [OF allocates_only_propagate_h])
  moreover from m have "length h1 \<le> length h2"
    by (rule allocates_only_length [OF allocates_only_h_map])
  moreover from s have "w' = length h2"
    by (rule h_op2_ref)
  ultimately show ?thesis
    using w by simp
qed

lemma optimize_loop_h_fresh:
  assumes "optimize_loop_h X Y lr pc is s h = Inr (s', h')" and "is \<noteq> []"
  shows "length h \<le> hs_w s'"
  using assms
proof (induction "is" arbitrary: s h)
  case Nil
  then show ?case by simp
next
  case (Cons i rest)
  from Cons.prems(1) obtain s1 h1 where
    body: "optimize_body_h X Y lr pc i s h = Inr (s1, h1)" and
    rest: "optimize_loop_h X Y lr pc rest s1 h1 = Inr (s', h')"
    by (auto simp: bindH_def split: sum.splits)
  from body have fresh1: "length h \<le> hs_w s1"
    by (rule optimize_body_h_fresh)
  from body have len1: "length h \<le> length h1"
    by (rule allocates_only_length [OF allocates_only_optimize_body_h])
  show ?case
  proof (cases rest)
    case Nil
    with rest fresh1 show ?thesis
      by (simp add: returnH_def)
  next
    case (Cons a list)
    with Cons.IH [OF rest] len1 show ?thesis
      by simp
  qed
qed

lemma optimize_h_fresh:
  assumes "optimize_h w b X Y n lr pc h = Inr (r, h')"
  shows "length h \<le> fst (fst r)"
proof -
  from assms obtain s where
    loop: "optimize_loop_h X Y lr pc (py_range n) (LoopStateH w b None None [] [] []) h
             = Inr (s, h')" and
    dw: "hs_dw s \<noteq> None" and r: "fst (fst r) = hs_w s"
    by (auto simp: optimize_h_def bindH_def Let_def returnH_def raiseH_def
        split: sum.splits option.splits)
  have "py_range n \<noteq> []"
  proof
    assume "py_range n = []"
    with loop dw show False
      by (auto simp: returnH_def)
  qed
  with loop r show ?thesis
    by (simp add: optimize_loop_h_fresh)
qed

lemma optimize_h_refines:
  assumes "w < length h" and "X < length h" and "Y < length h"
  shows "case optimize (h ! w) b (h ! X) (h ! Y) n lr pc of
           Inl e \<Rightarrow> optimize_h w b X Y n lr pc h = Inl e
         | Inr (p, g, costs, iterations) \<Rightarrow>
             (\<exists>t wr dwr.
                optimize_h w b X Y n lr pc h
                  = Inr (((wr, params_b p), (dwr, grads_db g), costs, iterations), h @ t) \<and>
                wr < length (h @ t) \<and> (h @ t) ! wr = params_w p \<and>
                dwr < length (h @ t) \<and> (h @ t) ! dwr = grads_dw g)"
proof -
  let ?s0 = "LoopStateH w b None None [] [] []"
  from assms(1) have valid: "state_valid h ?s0"
    by (simp add: state_valid_def)
  have abs0: "abs_state h ?s0 = LoopState (h ! w) b None None [] [] []"
    by (simp add: abs_state_def)
  note loop = optimize_loop_h_refines [OF valid assms(2,3), of lr pc "py_range n", unfolded abs0]
  show ?thesis
  proof (cases "optimize_loop (h ! X) (h ! Y) lr pc (py_range n)
                  (LoopState (h ! w) b None None [] [] [])")
    case (Inl e)
    with loop show ?thesis
      by (simp add: optimize_def optimize_h_def bindH_def)
  next
    case (Inr s')
    with loop obtain t sh where
      run: "optimize_loop_h X Y lr pc (py_range n) ?s0 h = Inr (sh, h @ t)" and
      v: "state_valid (h @ t) sh" and a: "abs_state (h @ t) sh = s'"
      by auto
    from a have sel: "ls_w s' = (h @ t) ! hs_w sh" "ls_b s' = hs_b sh"
      "ls_dw s' = map_option (\<lambda>r. (h @ t) ! r) (hs_dw sh)" "ls_db s' = hs_db sh"
      "ls_costs s' = hs_costs sh" "ls_iterations s' = hs_iterations sh"
      by (auto simp: abs_state_def)
    from Inr run v sel show ?thesis
      by (cases "hs_dw sh"; cases "hs_db sh")
        (auto simp: optimize_def optimize_h_def bindH_def Let_def returnH_def raiseH_def
          state_valid_def)
  qed
qed

lemma predict_loop_h_refines:
  assumes "A < length h" and "Yp < length h" and "A \<noteq> Yp"
  shows "predict_loop_h A is Yp h =
           (case predict_loop (h ! A) is (h ! Yp) of
              Inl e \<Rightarrow> Inl e
            | Inr P \<Rightarrow> Inr ((), h[Yp := P]))"
  using assms
proof (induction "is" arbitrary: h)
  case Nil
  then show ?case
    by (simp add: returnH_def)
next
  case (Cons i rest)
  have body: "predict_body_h A i Yp h =
      (case predict_body (h ! A) i (h ! Yp) of Inl e \<Rightarrow> Inl e | Inr P \<Rightarrow> Inr ((), h[Yp := P]))"
    using Cons.prems
    by (auto simp: predict_body_h_def predict_body_def h_getitem_def h_setitem_def bindH_def
        bindE_def read_array_def write_array_def liftE_exec split: sum.splits)
  show ?case
  proof (cases "predict_body (h ! A) i (h ! Yp)")
    case (Inl e)
    with body show ?thesis
      by (simp add: bindH_def)
  next
    case (Inr P)
    from Cons.prems have "A < length (h[Yp := P])" "Yp < length (h[Yp := P])"
      by simp_all
    from Cons.IH [OF this Cons.prems(3)] Cons.prems Inr body show ?thesis
      by (simp add: bindH_def split: sum.splits)
  qed
qed

lemma predict_h_refines:
  assumes "w < length h" and "X < length h"
  shows "case predict (h ! w) b (h ! X) of
           Inl e \<Rightarrow> predict_h w b X h = Inl e
         | Inr P \<Rightarrow>
             (\<exists>t. predict_h w b X h = Inr (length h, h @ P # t))"
  using assms
  by (simp add: predict_h_def predict_def Let_def heap_exec predict_loop_h_refines new_array_def
      np_zeros_def np_reshape_def shape_def bindE_def split: sum.splits)

lemma append_same_below: "h' = h @ t \<Longrightarrow> length h \<le> length h' \<and> (\<forall>a<length h. h' ! a = h ! a)"
  by (simp add: nth_append)

lemma keeps_same_below:
  assumes "keeps (length h) m Q" and "m h = Inr (x, h')"
  shows "length h \<le> length h' \<and> (\<forall>a<length h. h' ! a = h ! a) \<and> Q x"
proof -
  from assms have len: "length h \<le> length h'" and same: "take (length h) h' = h" and Q: "Q x"
    unfolding keeps_def by auto
  have "h' ! a = h ! a" if "a < length h" for a
  proof -
    from that have "take (length h) h' ! a = h' ! a"
      by simp
    with same show ?thesis
      by simp
  qed
  with len Q show ?thesis
    by simp
qed

section \<open>The claims of the specification\<close>

subsection \<open>sigmoid\<close>

text \<open>
  Claim C9. For every real \<open>z\<close>, \<open>sigmoid z = 1 / (1 + exp (-z))\<close> lies strictly between
  0 and 1, \<open>sigmoid 0\<close> is exactly one half, \<open>sigmoid\<close> is (strictly) increasing, and
  \<open>sigmoid (-z) = 1 - sigmoid z\<close>.
\<close>

theorem sigmoid_properties:
  "sigmoid z = 1 / (1 + exp (- z)) \<and> 0 < sigmoid z \<and> sigmoid z < 1 \<and> sigmoid 0 = 1 / 2 \<and>
   strict_mono sigmoid \<and> sigmoid (- z) = 1 - sigmoid z"
proof -
  have "strict_mono sigmoid"
    by (rule strict_monoI) (rule sigmoid_strict_mono)
  then show ?thesis
    using sigmoid_pos [of z] sigmoid_less_one [of z] sigmoid_zero sigmoid_neg [of z]
    by (simp add: sigmoid_def)
qed

theorem sigmoid_properties_witness:
  "0 < sigmoid 2 \<and> sigmoid 2 < 1 \<and> sigmoid 0 < sigmoid 2 \<and> sigmoid (- 2) = 1 - sigmoid 2"
proof -
  have "strict_mono sigmoid"
    using sigmoid_properties [of 2] by blast
  then have "sigmoid 0 < sigmoid 2"
    by (rule strict_monoD) simp
  moreover have "0 < sigmoid 2 \<and> sigmoid 2 < 1 \<and> sigmoid (- 2) = 1 - sigmoid 2"
    using sigmoid_properties [of 2] by blast
  ultimately show ?thesis
    by blast
qed

subsection \<open>initialize_with_zeros\<close>

text \<open>
  Claim C6 says that \<open>initialize_with_zeros\<close> fails for every \<open>dim \<le> 0\<close>. The source
  has no check of its own: the only failure is numpy's, which refuses a negative
  dimension and accepts zero. At \<open>dim = 0\<close> the function returns an empty array of shape
  \<open>(0, 1)\<close> and \<open>b = 0\<close>.
\<close>

theorem initialize_with_zeros_at_zero: "initialize_with_zeros 0 = Inr (NDArray 0 1 [], 0)"
  by (simp add: initialize_with_zeros_def np_zeros_def mk_def shape_def)

text \<open>
  Claim C6, amended. \<open>initialize_with_zeros dim\<close> fails (numpy's \<open>ValueError\<close>) exactly
  when \<open>dim < 0\<close>; for \<open>dim \<ge> 0\<close> it returns \<open>w\<close> of shape \<open>(dim, 1)\<close> with every
  entry 0, and \<open>b = 0\<close>.
\<close>

theorem initialize_with_zeros_result:
  "(d < 0 \<longrightarrow> initialize_with_zeros d = Inl (ValueError NegativeDimensions)) \<and>
   (0 \<le> d \<longrightarrow>
      (\<exists>w. initialize_with_zeros d = Inr (w, 0) \<and> wf_array w \<and> shape w = (nat d, 1) \<and>
           (\<forall>i<nat d. item w i 0 = 0)))"
  by (simp add: initialize_with_zeros_def np_zeros_def shape_def)

theorem initialize_with_zeros_result_witness:
  "initialize_with_zeros (- 1) = Inl (ValueError NegativeDimensions) \<and>
   (\<exists>w. initialize_with_zeros 3 = Inr (w, 0) \<and> wf_array w \<and> shape w = (3, 1) \<and>
        item w 0 0 = 0 \<and> item w 1 0 = 0 \<and> item w 2 0 = 0)"
proof -
  obtain w where "initialize_with_zeros 3 = Inr (w, 0)" "wf_array w" "shape w = (nat 3, 1)"
    "\<forall>i<nat 3. item w i 0 = 0"
    using initialize_with_zeros_result [of 3] by auto
  then show ?thesis
    using initialize_with_zeros_result [of "- 1"] by auto
qed

subsection \<open>propagate\<close>

text \<open>
  Claim C7. \<open>propagate\<close> with a \<open>w\<close> whose row count differs from that of \<open>X\<close> (for
  instance \<open>w\<close> of shape \<open>(3, 1)\<close> and \<open>X\<close> of shape \<open>(2, 5)\<close>) fails with a shape
  error and computes nothing: \<open>np.dot(w.T, X)\<close> raises numpy's \<open>ValueError\<close> for shapes
  that are not aligned.
\<close>

theorem propagate_shape_mismatch:
  "nrows w \<noteq> nrows X \<Longrightarrow> propagate w b X Y = Inl (ValueError ShapesNotAligned)"
  by (simp add: propagate_def np_dot_def np_T_def)

theorem propagate_shape_mismatch_witness:
  "nrows (NDArray 3 1 [[0], [0], [0]]) \<noteq> nrows (NDArray 2 5 [[0, 0, 0, 0, 0], [0, 0, 0, 0, 0]]) \<and>
   propagate (NDArray 3 1 [[0], [0], [0]]) 0 (NDArray 2 5 [[0, 0, 0, 0, 0], [0, 0, 0, 0, 0]])
     (NDArray 1 5 [[0, 0, 0, 0, 0]]) = Inl (ValueError ShapesNotAligned)"
  using propagate_shape_mismatch
    [of "NDArray 3 1 [[0], [0], [0]]" "NDArray 2 5 [[0, 0, 0, 0, 0], [0, 0, 0, 0, 0]]" 0
        "NDArray 1 5 [[0, 0, 0, 0, 0]]"]
  by simp

text \<open>
  Claim C3. For \<open>w\<close> of shape \<open>(F, 1)\<close>, \<open>X\<close> of shape \<open>(F, N)\<close> with \<open>N \<ge> 1\<close> and
  \<open>Y\<close> of shape \<open>(1, N)\<close>, \<open>propagate\<close> returns \<open>dw\<close> of shape \<open>(F, 1)\<close> with
  \<open>dw = (1/N) X (A - Y)\<^sup>T\<close>, the scalar \<open>db = (1/N) \<Sum>(A - Y)\<close> and the scalar
  \<open>cost = -(1/N) \<Sum>[Y log A + (1 - Y) log(1 - A)]\<close>, where \<open>A = sigmoid(w\<^sup>T X + b)\<close>.
\<close>

theorem propagate_refines_spec:
  assumes "wf_array w" and "wf_array X" and "wf_array Y"
    and "shape w = (nrows X, 1)" and "shape Y = (1, ncols X)" and "1 \<le> ncols X"
  shows "\<exists>dw db cost.
           propagate w b X Y = Inr (Grads dw db, cost) \<and>
           wf_array dw \<and> shape dw = (nrows X, 1) \<and>
           (\<forall>i<nrows X. item dw i 0 = spec_dw w b X Y i) \<and>
           db = spec_db w b X Y \<and>
           cost = spec_cost w b X Y"
proof -
  from assms have "well_shaped w X Y"
    by (simp add: well_shaped_def)
  then have "propagate w b X Y =
     Inr (Grads (mk (nrows X) 1 (\<lambda>i j. spec_dw w b X Y i)) (spec_db w b X Y), spec_cost w b X Y)"
    by (rule propagate_well_shaped)
  then show ?thesis
    by (simp add: shape_def)
qed

theorem propagate_refines_spec_witness:
  "wf_array (NDArray 2 1 [[0], [0]]) \<and> wf_array (NDArray 2 2 [[1, 0], [0, 1]]) \<and>
   wf_array (NDArray 1 2 [[1, 0]]) \<and>
   shape (NDArray 2 1 [[0], [0]]) = (nrows (NDArray 2 2 [[1, 0], [0, 1]]), 1) \<and>
   shape (NDArray 1 2 [[1, 0]]) = (1, ncols (NDArray 2 2 [[1, 0], [0, 1]])) \<and>
   1 \<le> ncols (NDArray 2 2 [[1, 0], [0, 1]]) \<and>
   (\<exists>dw db cost.
      propagate (NDArray 2 1 [[0], [0]]) 0 (NDArray 2 2 [[1, 0], [0, 1]]) (NDArray 1 2 [[1, 0]])
        = Inr (Grads dw db, cost) \<and>
      shape dw = (2, 1) \<and> item dw 0 0 = - 1 / 4 \<and> item dw 1 0 = 1 / 4 \<and> db = 0 \<and>
      cost = ln 2)"
proof -
  let ?w = "NDArray 2 1 [[0], [0]]" and ?X = "NDArray 2 2 [[1, 0], [0, 1]]"
    and ?Y = "NDArray 1 2 [[1, 0]]"
  have h: "wf_array ?w" "wf_array ?X" "wf_array ?Y" "shape ?w = (nrows ?X, 1)"
    "shape ?Y = (1, ncols ?X)" "1 \<le> ncols ?X"
    by (simp_all add: wf_array_def shape_def)
  have act: "spec_activation ?w 0 ?X j = 1 / 2" for j
    by (simp add: spec_activation_def item_def upt_2 sigmoid_zero)
  have v: "spec_dw ?w 0 ?X ?Y 0 = - 1 / 4" "spec_dw ?w 0 ?X ?Y 1 = 1 / 4"
    "spec_db ?w 0 ?X ?Y = 0" "spec_cost ?w 0 ?X ?Y = ln 2"
    by (simp_all add: spec_dw_def spec_db_def spec_cost_def act [unfolded One_nat_def]
        item_def upt_2 ln_div)
  from propagate_refines_spec [OF h, of 0] v h show ?thesis
    by auto
qed

subsection \<open>optimize\<close>

text \<open>
  Claim C5. For \<open>num_iterations \<ge> 1\<close> and inputs of the shapes of the data model,
  \<open>optimize\<close> returns, and the cost history it returns records exactly the iterations
  \<open>i\<close> of \<open>[0, num_iterations)\<close> with \<open>i mod 100 = 0\<close>, in strictly increasing order;
  the cost paired with iteration \<open>i\<close> is the one \<open>propagate\<close> computes from the
  parameters at the start of iteration \<open>i\<close>, that is, from the state of the loop after
  the iterations \<open>0, \<dots>, i - 1\<close>.
\<close>

theorem optimize_cost_history:
  assumes "well_shaped w X Y" and "1 \<le> num_iterations"
  shows "\<exists>params grads costs iterations.
           optimize w b X Y num_iterations lr pc = Inr (params, grads, costs, iterations) \<and>
           iterations = filter (\<lambda>i. i mod 100 = 0) [0..<nat num_iterations] \<and>
           sorted_wrt (<) iterations \<and>
           length costs = length iterations \<and>
           (\<forall>k<length iterations. \<exists>s g.
              optimize_loop X Y lr pc [0..<iterations ! k] (LoopState w b None None [] [] [])
                = Inr s \<and>
              propagate (ls_w s) (ls_b s) X Y = Inr (g, costs ! k))"
proof -
  let ?n = "nat num_iterations"
  let ?init = "LoopState w b None None [] [] []"
  from optimize_returns [OF assms, of lr pc b] obtain s dw db where
    run: "optimize_loop X Y lr pc [0..<?n] ?init = Inr s" and
    res: "optimize w b X Y num_iterations lr pc
            = Inr (Params (ls_w s) (ls_b s), Grads dw db, ls_costs s, ls_iterations s)"
    by blast
  from optimize_loop_invariant [OF assms(1), of lr pc ?n b] run have
    its: "ls_iterations s = recorded ?n" and
    len: "length (ls_costs s) = length (recorded ?n)" and
    costs: "\<forall>k<length (recorded ?n). \<exists>s' g.
              optimize_loop X Y lr pc [0..<recorded ?n ! k] ?init = Inr s' \<and>
              propagate (ls_w s') (ls_b s') X Y = Inr (g, ls_costs s ! k)"
    by auto
  have "sorted_wrt (<) (recorded ?n)"
    unfolding recorded_def by (rule sorted_wrt_filter) simp
  with res its len costs show ?thesis
    by (simp add: recorded_def)
qed

theorem optimize_cost_history_witness:
  "well_shaped (NDArray 2 1 [[0], [0]]) (NDArray 2 2 [[1, 0], [0, 1]]) (NDArray 1 2 [[1, 0]]) \<and>
   (1::int) \<le> 101 \<and>
   (\<exists>params grads costs iterations.
      optimize (NDArray 2 1 [[0], [0]]) 0 (NDArray 2 2 [[1, 0], [0, 1]]) (NDArray 1 2 [[1, 0]])
        101 (1 / 2) False = Inr (params, grads, costs, iterations) \<and>
      iterations = [0, 100] \<and> length costs = 2 \<and> costs ! 0 = ln 2)"
proof -
  let ?w = "NDArray 2 1 [[0], [0]]" and ?X = "NDArray 2 2 [[1, 0], [0, 1]]"
    and ?Y = "NDArray 1 2 [[1, 0]]"
  let ?init = "LoopState ?w 0 None None [] [] []"
  have n: "(1::int) \<le> 101"
    by simp
  from optimize_cost_history [OF example_well_shaped n, of 0 "1 / 2" False]
  obtain params grads costs iterations where
    res: "optimize ?w 0 ?X ?Y 101 (1 / 2) False = Inr (params, grads, costs, iterations)" and
    its: "iterations = filter (\<lambda>i. i mod 100 = 0) [0..<nat 101]" and
    len: "length costs = length iterations" and
    costs: "\<forall>k<length iterations. \<exists>s g.
              optimize_loop ?X ?Y (1 / 2) False [0..<iterations ! k] ?init = Inr s \<and>
              propagate (ls_w s) (ls_b s) ?X ?Y = Inr (g, costs ! k)"
    by blast
  from its have its': "iterations = [0, 100]"
    by (simp add: recorded_101)
  with costs obtain s g where
    "optimize_loop ?X ?Y (1 / 2) False [0..<0] ?init = Inr s"
    "propagate (ls_w s) (ls_b s) ?X ?Y = Inr (g, costs ! 0)"
    by fastforce
  then have "propagate ?w 0 ?X ?Y = Inr (g, costs ! 0)"
    by auto
  with propagate_well_shaped [OF example_well_shaped, of 0]
  have "spec_cost ?w 0 ?X ?Y = costs ! 0"
    by simp
  with example_cost have "costs ! 0 = ln 2"
    by simp
  with res its' len example_well_shaped show ?thesis
    by simp
qed

text \<open>
  Claim C2 says that \<open>optimize\<close> with \<open>num_iterations = 0\<close> returns its inputs
  unchanged. The source reads the loop's local variables \<open>dw\<close> and \<open>db\<close> after the
  loop; with no iteration they were never assigned, and the call raises
  \<open>UnboundLocalError\<close> whatever the other arguments are. (For \<open>num_iterations \<ge> 1\<close>
  the loop runs every iteration and the update is the claim's: see
  \<open>optimize_returns\<close> and \<open>optimize_body_well_shaped\<close>.)
\<close>

theorem optimize_zero_iterations:
  "optimize w b X Y 0 learning_rate print_cost = Inl (UnboundLocalError ''dw'')"
  by (simp add: optimize_def py_range_def)

text \<open>
  Claim C8 says that \<open>optimize\<close> with \<open>learning_rate = 0\<close> raises an
  invalid-hyperparameter error or returns \<open>w\<close> and \<open>b\<close> as they were passed in. With
  \<open>num_iterations = 0\<close> it does neither: it raises \<open>UnboundLocalError\<close>, by the defect
  of claim C2. (For \<open>num_iterations \<ge> 1\<close> it returns the parameters unchanged:
  \<open>optimize_zero_rate_noop\<close>.)
\<close>

theorem optimize_zero_rate_zero_iterations:
  "optimize (NDArray 2 1 [[0], [0]]) 0 (NDArray 2 2 [[1, 0], [0, 1]]) (NDArray 1 2 [[1, 0]])
     0 0 False = Inl (UnboundLocalError ''dw'')"
  by (simp add: optimize_def py_range_def)

subsection \<open>model\<close>

text \<open>
  Claim C1 says that \<open>model\<close> returns a record of the trained model for every valid
  configuration. \<open>optimize\<close> returns four objects and \<open>model\<close> unpacks them into
  three names, so the assignment raises \<open>ValueError\<close> (too many values to unpack) as
  soon as \<open>optimize\<close> has returned; no configuration makes \<open>model\<close> return
  (\<open>model_never_returns\<close>).
\<close>

theorem model_raises_at_valid_configuration:
  "model (NDArray 2 2 [[1, 0], [0, 1]]) (NDArray 1 2 [[1, 0]])
         (NDArray 2 2 [[1, 0], [0, 1]]) (NDArray 1 2 [[1, 0]]) 1 (1 / 2) False
     = Inl (ValueError TooManyValuesToUnpack)"
  by (rule model_raises) (simp_all add: wf_array_def shape_def)

subsection \<open>predict\<close>

text \<open>
  Claim C4. For \<open>w\<close> with \<open>F\<close> entries, a scalar \<open>b\<close> and \<open>X\<close> of shape \<open>(F, N)\<close>,
  \<open>predict\<close> returns an array of shape \<open>(1, N)\<close> whose \<open>i\<close>-th entry is 1 if the
  activation of column \<open>i\<close> is greater than 0.5 and 0 otherwise; every entry is 0 or 1,
  and an activation of exactly 0.5 gives 0. (For \<open>w\<close> of shape \<open>(F, 1)\<close> the activation
  is that of \<open>propagate\<close>: \<open>spec_predict_activation_column\<close>.)
\<close>

theorem predict_thresholds:
  assumes "wf_array w" and "wf_array X" and "nrows w * ncols w = nrows X"
  shows "\<exists>P. predict w b X = Inr P \<and> wf_array P \<and> shape P = (1, ncols X) \<and>
           (\<forall>i<ncols X.
              item P 0 i = (if spec_predict_activation w b X i > 0.5 then 1 else 0) \<and>
              (item P 0 i = 0 \<or> item P 0 i = 1) \<and>
              (spec_predict_activation w b X i = 0.5 \<longrightarrow> item P 0 i = 0))"
proof -
  from predict_result [OF assms(2,3), of b] show ?thesis
    by (simp add: shape_def)
qed

theorem predict_thresholds_witness:
  "wf_array (NDArray 1 2 [[1, 0]]) \<and> wf_array (NDArray 2 2 [[1, 0], [0, 1]]) \<and>
   nrows (NDArray 1 2 [[1, 0]]) * ncols (NDArray 1 2 [[1, 0]]) = nrows (NDArray 2 2 [[1, 0], [0, 1]]) \<and>
   (\<exists>P. predict (NDArray 1 2 [[1, 0]]) 0 (NDArray 2 2 [[1, 0], [0, 1]]) = Inr P \<and>
        shape P = (1, 2) \<and> item P 0 0 = 1 \<and> item P 0 1 = 0)"
proof -
  let ?w = "NDArray 1 2 [[1, 0]]" and ?X = "NDArray 2 2 [[1, 0], [0, 1]]"
  have h: "wf_array ?w" "wf_array ?X" "nrows ?w * ncols ?w = nrows ?X"
    by (simp_all add: wf_array_def)
  have "sigmoid 0 < sigmoid 1"
    by (rule sigmoid_strict_mono) simp
  then have a0: "spec_predict_activation ?w 0 ?X 0 > 0.5"
    by (simp add: spec_predict_activation_def item_def upt_2 sigmoid_zero)
  have a1: "spec_predict_activation ?w 0 ?X 1 = 0.5"
    by (simp add: spec_predict_activation_def item_def upt_2 sigmoid_zero)
  from predict_thresholds [OF h, of 0] obtain P where
    P: "predict ?w 0 ?X = Inr P" "shape P = (1, ncols ?X)"
      "\<forall>i<ncols ?X. item P 0 i = (if spec_predict_activation ?w 0 ?X i > 0.5 then 1 else 0)"
    by blast
  from P(3) have "item P 0 0 = (if spec_predict_activation ?w 0 ?X 0 > 0.5 then 1 else 0)"
    "item P 0 1 = (if spec_predict_activation ?w 0 ?X 1 > 0.5 then 1 else 0)"
    by simp_all
  with a0 a1 have "item P 0 0 = 1" "item P 0 1 = 0"
    by simp_all
  with P h show ?thesis
    by auto
qed

subsection \<open>No array argument is mutated\<close>

text \<open>
  Claim C10. Neither \<open>propagate\<close> nor \<open>optimize\<close> mutates an array argument: when
  either returns, every object that was in the store at the call is still there with
  the entries it had, in particular the caller's \<open>w\<close>, \<open>X\<close> and \<open>Y\<close>; the \<open>w\<close> that
  \<open>optimize\<close> returns is an object allocated during the call. The same holds of
  \<open>predict\<close>, which writes only to the array it allocates and returns.
\<close>

theorem array_arguments_not_mutated:
  "(propagate_h w b X Y h = Inr (r1, h1) \<longrightarrow>
      length h \<le> length h1 \<and> (\<forall>a<length h. h1 ! a = h ! a)) \<and>
   (optimize_h w b X Y num_iterations learning_rate print_cost h = Inr (r2, h2) \<longrightarrow>
      length h \<le> length h2 \<and> (\<forall>a<length h. h2 ! a = h ! a) \<and> length h \<le> fst (fst r2)) \<and>
   (predict_h w' b' X' h = Inr (r3, h3) \<longrightarrow>
      length h \<le> length h3 \<and> (\<forall>a<length h. h3 ! a = h ! a) \<and> length h \<le> r3)"
proof (intro conjI impI)
  assume "propagate_h w b X Y h = Inr (r1, h1)"
  with allocates_only_propagate_h [of w b X Y] obtain t where "h1 = h @ t"
    unfolding allocates_only_def by blast
  then show "length h \<le> length h1" "\<forall>a<length h. h1 ! a = h ! a"
    by (simp_all add: append_same_below)
next
  assume run: "optimize_h w b X Y num_iterations learning_rate print_cost h = Inr (r2, h2)"
  with allocates_only_optimize_h [of w b X Y num_iterations learning_rate print_cost]
  obtain t where "h2 = h @ t"
    unfolding allocates_only_def by blast
  then show "length h \<le> length h2" "\<forall>a<length h. h2 ! a = h ! a"
    by (simp_all add: append_same_below)
  from run show "length h \<le> fst (fst r2)"
    by (rule optimize_h_fresh)
next
  assume "predict_h w' b' X' h = Inr (r3, h3)"
  with keeps_predict_h [of "length h" w' b' X']
  have "length h \<le> length h3 \<and> (\<forall>a<length h. h3 ! a = h ! a) \<and> length h \<le> r3"
    by (rule keeps_same_below)
  then show "length h \<le> length h3" "\<forall>a<length h. h3 ! a = h ! a" "length h \<le> r3"
    by simp_all
qed

theorem array_arguments_not_mutated_witness:
  "(\<exists>r h'. propagate_h 0 0 1 2
              [NDArray 2 1 [[0], [0]], NDArray 2 2 [[1, 0], [0, 1]], NDArray 1 2 [[1, 0]]]
              = Inr (r, h') \<and>
            h' ! 0 = NDArray 2 1 [[0], [0]] \<and> h' ! 1 = NDArray 2 2 [[1, 0], [0, 1]] \<and>
            h' ! 2 = NDArray 1 2 [[1, 0]]) \<and>
   (\<exists>r h'. optimize_h 0 0 1 2 2 (1 / 2) False
              [NDArray 2 1 [[0], [0]], NDArray 2 2 [[1, 0], [0, 1]], NDArray 1 2 [[1, 0]]]
              = Inr (r, h') \<and>
            h' ! 0 = NDArray 2 1 [[0], [0]] \<and> h' ! 1 = NDArray 2 2 [[1, 0], [0, 1]] \<and>
            h' ! 2 = NDArray 1 2 [[1, 0]] \<and> 3 \<le> fst (fst r)) \<and>
   (\<exists>r h'. predict_h 0 0 1
              [NDArray 2 1 [[0], [0]], NDArray 2 2 [[1, 0], [0, 1]], NDArray 1 2 [[1, 0]]]
              = Inr (r, h') \<and>
            h' ! 0 = NDArray 2 1 [[0], [0]] \<and> h' ! 1 = NDArray 2 2 [[1, 0], [0, 1]] \<and>
            h' ! 2 = NDArray 1 2 [[1, 0]] \<and> 3 \<le> r)"
proof -
  let ?w = "NDArray 2 1 [[0], [0]]" and ?X = "NDArray 2 2 [[1, 0], [0, 1]]"
    and ?Y = "NDArray 1 2 [[1, 0]]"
  let ?h = "[?w, ?X, ?Y]"
  have refs: "0 < length ?h" "1 < length ?h" "2 < length ?h"
    by simp_all
  have sel: "?h ! 0 = ?w" "?h ! 1 = ?X" "?h ! 2 = ?Y"
    by simp_all
  have "\<exists>gc. propagate ?w 0 ?X ?Y = Inr gc"
    using propagate_well_shaped [OF example_well_shaped, of 0] by blast
  with propagate_h_refines [OF refs, of 0, unfolded sel]
  obtain r1 h1 where p: "propagate_h 0 0 1 2 ?h = Inr (r1, h1)"
    by auto
  have "\<exists>res. optimize ?w 0 ?X ?Y 2 (1 / 2) False = Inr res"
    using optimize_returns [OF example_well_shaped, of 2 "1 / 2" False 0] by auto
  with optimize_h_refines [OF refs, of 0 2 "1 / 2" False, unfolded sel]
  obtain r2 h2 where opt: "optimize_h 0 0 1 2 2 (1 / 2) False ?h = Inr (r2, h2)"
    by auto
  have "wf_array ?X" "nrows ?w * ncols ?w = nrows ?X"
    by (simp_all add: wf_array_def)
  from predict_result [OF this, of 0] have "\<exists>P. predict ?w 0 ?X = Inr P"
    by blast
  with predict_h_refines [OF refs(1,2), of 0, unfolded sel]
  obtain r3 h3 where q: "predict_h 0 0 1 ?h = Inr (r3, h3)"
    by auto
  from array_arguments_not_mutated
    [of 0 0 1 2 ?h r1 h1 2 "1 / 2" False r2 h2 0 0 1 r3 h3] p opt q
  have same: "\<forall>a<length ?h. h1 ! a = ?h ! a"
    "\<forall>a<length ?h. h2 ! a = ?h ! a" "\<forall>a<length ?h. h3 ! a = ?h ! a"
    and fresh: "length ?h \<le> fst (fst r2)" "length ?h \<le> r3"
    by blast+
  from same(1) refs sel have "h1 ! 0 = ?w \<and> h1 ! 1 = ?X \<and> h1 ! 2 = ?Y"
    by metis
  moreover from same(2) refs sel have "h2 ! 0 = ?w \<and> h2 ! 1 = ?X \<and> h2 ! 2 = ?Y"
    by metis
  moreover from same(3) refs sel have "h3 ! 0 = ?w \<and> h3 ! 1 = ?X \<and> h3 ! 2 = ?Y"
    by metis
  moreover from fresh have "3 \<le> fst (fst r2)" "3 \<le> r3"
    by simp_all
  ultimately have "h1 ! 0 = ?w \<and> h1 ! 1 = ?X \<and> h1 ! 2 = ?Y"
    "h2 ! 0 = ?w \<and> h2 ! 1 = ?X \<and> h2 ! 2 = ?Y \<and> 3 \<le> fst (fst r2)"
    "h3 ! 0 = ?w \<and> h3 ! 1 = ?X \<and> h3 ! 2 = ?Y \<and> 3 \<le> r3"
    by simp_all
  with p opt q show ?thesis
    by blast
qed

end
